theory Spec2Isabelle
  imports Main "HOL-Library.Sublist"
begin

section \<open>The specification document and Python's primitives\<close>

text \<open>
  The generator works on the nested mapping that \<^verbatim>\<open>json.load\<close> or \<^verbatim>\<open>yaml.safe_load\<close>
  returns. A mapping is an association list in insertion order (Python dictionaries iterate in
  insertion order) with string keys, as every JSON object has. Numbers are integers;
  floating-point numbers are outside the model. Strings are ASCII text: one \<^typ>\<open>char\<close> is
  one character, and the characters from 128 on are treated as neither letters nor digits.
\<close>

datatype json =
    JNull
  | JBool bool
  | JInt int
  | JStr string
  | JList "json list"
  | JDict "(string \<times> json) list"

text \<open>The exceptions the generator's own lookups can raise.\<close>

datatype error = AttributeError | IndexError | KeyError | TypeError

type_synonym 'a result = "error + 'a"

fun rbind :: "'a result \<Rightarrow> ('a \<Rightarrow> 'b result) \<Rightarrow> 'b result" where
  "rbind (Inl e) f = Inl e"
| "rbind (Inr x) f = f x"

subsection \<open>Strings\<close>

definition lower_char :: "char \<Rightarrow> char" where
  "lower_char c =
     (let n = (of_char c :: nat) in if 65 \<le> n \<and> n \<le> 90 then char_of (n + 32) else c)"

definition upper_char :: "char \<Rightarrow> char" where
  "upper_char c =
     (let n = (of_char c :: nat) in if 97 \<le> n \<and> n \<le> 122 then char_of (n - 32) else c)"

text \<open>\<^verbatim>\<open>s.lower()\<close> and \<^verbatim>\<open>s.upper()\<close>.\<close>

definition py_lower :: "string \<Rightarrow> string" where
  "py_lower s = map lower_char s"

definition py_upper :: "string \<Rightarrow> string" where
  "py_upper s = map upper_char s"

text \<open>\<^verbatim>\<open>a in b\<close> on two strings: \<open>a\<close> occurs in \<open>b\<close>.\<close>

fun str_in :: "string \<Rightarrow> string \<Rightarrow> bool" where
  "str_in a [] = (a = [])"
| "str_in a (c # cs) = (prefix a (c # cs) \<or> str_in a cs)"

text \<open>\<^verbatim>\<open>sep.join(xs)\<close>.\<close>

fun py_join :: "string \<Rightarrow> string list \<Rightarrow> string" where
  "py_join sep [] = []"
| "py_join sep [x] = x"
| "py_join sep (x # y # ys) = x @ sep @ py_join sep (y # ys)"

text \<open>
  \<^verbatim>\<open>s.replace(old, new)\<close>: every occurrence of \<open>old\<close>, found from left to right without
  overlap, becomes \<open>new\<close>; an empty \<open>old\<close> matches before every character and at the end.
\<close>

function replace_str :: "string \<Rightarrow> string \<Rightarrow> string \<Rightarrow> string" where
  "replace_str old new [] = (if old = [] then new else [])"
| "replace_str old new (c # cs) =
     (if old = [] then new @ c # replace_str old new cs
      else if prefix old (c # cs) then new @ replace_str old new (drop (length old) (c # cs))
      else c # replace_str old new cs)"
  by pat_completeness auto
termination
  by (relation "measure (\<lambda>(old, new, s). length s)") (auto simp: Suc_le_eq)

text \<open>\<^verbatim>\<open>s.split(sep)\<close> for a separator of one character.\<close>

fun py_split :: "char \<Rightarrow> string \<Rightarrow> string list" where
  "py_split sep [] = [[]]"
| "py_split sep (c # cs) =
     (if c = sep then [] # py_split sep cs
      else (case py_split sep cs of [] \<Rightarrow> [[c]] | p # ps \<Rightarrow> (c # p) # ps))"

text \<open>The class \<^verbatim>\<open>\w\<close> of the regular expressions, on ASCII.\<close>

definition is_word_char :: "char \<Rightarrow> bool" where
  "is_word_char c =
     (let n = (of_char c :: nat)
      in (48 \<le> n \<and> n \<le> 57) \<or> (65 \<le> n \<and> n \<le> 90) \<or> n = 95 \<or> (97 \<le> n \<and> n \<le> 122))"

subsection \<open>Rendering a value as text\<close>

definition digit_char :: "nat \<Rightarrow> char" where
  "digit_char n = char_of (48 + n)"

function str_nat :: "nat \<Rightarrow> string" where
  "str_nat n = (if n < 10 then [digit_char n] else str_nat (n div 10) @ [digit_char (n mod 10)])"
  by pat_completeness auto
termination
  by (relation "measure id") auto

declare str_nat.simps [simp del]

definition str_int :: "int \<Rightarrow> string" where
  "str_int i = (if i < 0 then CHR ''-'' # str_nat (nat (- i)) else str_nat (nat i))"

definition hex_char :: "nat \<Rightarrow> char" where
  "hex_char n = (if n < 10 then char_of (48 + n) else char_of (87 + n))"

text \<open>
  \<^verbatim>\<open>repr(s)\<close> of a string: double quotes only when the string has a single quote and no
  double quote; the backslash, the chosen quote and the control characters are escaped.
\<close>

definition repr_char :: "char \<Rightarrow> char \<Rightarrow> string" where
  "repr_char q c =
     (let n = (of_char c :: nat)
      in if c = CHR 0x5C then [CHR 0x5C, CHR 0x5C]
         else if c = q then [CHR 0x5C, c]
         else if n = 9 then [CHR 0x5C, CHR ''t'']
         else if n = 10 then [CHR 0x5C, CHR ''n'']
         else if n = 13 then [CHR 0x5C, CHR ''r'']
         else if n < 32 \<or> n = 127 then [CHR 0x5C, CHR ''x'', hex_char (n div 16), hex_char (n mod 16)]
         else [c])"

definition repr_str :: "string \<Rightarrow> string" where
  "repr_str s =
     (let q = (if CHR 0x27 \<in> set s \<and> CHR 0x22 \<notin> set s then CHR 0x22 else CHR 0x27)
      in q # concat (map (repr_char q) s) @ [q])"

fun py_repr :: "json \<Rightarrow> string" where
  "py_repr JNull = ''None''"
| "py_repr (JBool b) = (if b then ''True'' else ''False'')"
| "py_repr (JInt i) = str_int i"
| "py_repr (JStr s) = repr_str s"
| "py_repr (JList xs) = ''['' @ py_join '', '' (map py_repr xs) @ '']''"
| "py_repr (JDict kvs) =
     ''{'' @ py_join '', '' (map (\<lambda>(k, v). repr_str k @ '': '' @ py_repr v) kvs) @ ''}''"

text \<open>\<^verbatim>\<open>str(v)\<close>, which is what an f-string writes for \<^verbatim>\<open>{v}\<close>.\<close>

fun py_str :: "json \<Rightarrow> string" where
  "py_str (JStr s) = s"
| "py_str v = py_repr v"

subsection \<open>Lookups\<close>

text \<open>\<^verbatim>\<open>d.get(k, default)\<close>: only a mapping has the method.\<close>

fun py_get :: "json \<Rightarrow> string \<Rightarrow> json \<Rightarrow> json result" where
  "py_get (JDict kvs) k d = Inr (case map_of kvs k of None \<Rightarrow> d | Some v \<Rightarrow> v)"
| "py_get _ k d = Inl AttributeError"

text \<open>\<^verbatim>\<open>d.items()\<close>.\<close>

fun py_items :: "json \<Rightarrow> (string \<times> json) list result" where
  "py_items (JDict kvs) = Inr kvs"
| "py_items _ = Inl AttributeError"

text \<open>
  \<^verbatim>\<open>x[0]\<close>: the first element of a list, the first character of a string; an empty list
  or string raises IndexError, a mapping (whose keys are strings) KeyError, anything else
  TypeError.
\<close>

fun py_getitem0 :: "json \<Rightarrow> json result" where
  "py_getitem0 (JList []) = Inl IndexError"
| "py_getitem0 (JList (x # xs)) = Inr x"
| "py_getitem0 (JStr []) = Inl IndexError"
| "py_getitem0 (JStr (c # cs)) = Inr (JStr [c])"
| "py_getitem0 (JDict kvs) = Inl KeyError"
| "py_getitem0 _ = Inl TypeError"

text \<open>
  \<^verbatim>\<open>s in x\<close> for a string \<open>s\<close>: a key of a mapping, an element of a list, a substring of
  a string; TypeError on a value that is not a container.
\<close>

fun py_in :: "string \<Rightarrow> json \<Rightarrow> bool result" where
  "py_in s (JDict kvs) = Inr (s \<in> set (map fst kvs))"
| "py_in s (JList xs) = Inr (JStr s \<in> set xs)"
| "py_in s (JStr t) = Inr (str_in s t)"
| "py_in s _ = Inl TypeError"

text \<open>The truth value of \<^verbatim>\<open>if x:\<close>.\<close>

fun py_truthy :: "json \<Rightarrow> bool" where
  "py_truthy JNull = False"
| "py_truthy (JBool b) = b"
| "py_truthy (JInt i) = (i \<noteq> 0)"
| "py_truthy (JStr s) = (s \<noteq> [])"
| "py_truthy (JList xs) = (xs \<noteq> [])"
| "py_truthy (JDict kvs) = (kvs \<noteq> [])"

text \<open>\<^verbatim>\<open>{**d, k: v}\<close>: the key keeps its place when \<open>d\<close> has it, and is added last otherwise.\<close>

fun dict_set :: "string \<Rightarrow> json \<Rightarrow> (string \<times> json) list \<Rightarrow> (string \<times> json) list" where
  "dict_set k v [] = [(k, v)]"
| "dict_set k v ((k', v') # kvs) = (if k' = k then (k, v) # kvs else (k', v') # dict_set k v kvs)"

section \<open>The generator\<close>

record endpoint =
  ep_path :: string
  ep_method :: string
  ep_operation :: json
  ep_operation_id :: json
  ep_base_url :: json

text \<open>The attributes of an \<^verbatim>\<open>OpenAPIToK6\<close> object.\<close>

record generator =
  g_spec :: json
  g_auth_key :: "string option"
  g_tracked_values :: "(string \<times> json) list"
  g_endpoints :: "endpoint list"

text \<open>The constructor \<^verbatim>\<open>OpenAPIToK6(openapi_spec, auth_key)\<close>.\<close>

definition OpenAPIToK6 :: "json \<Rightarrow> string option \<Rightarrow> generator" where
  "OpenAPIToK6 openapi_spec auth_key =
     \<lparr>g_spec = openapi_spec, g_auth_key = auth_key, g_tracked_values = [], g_endpoints = []\<rparr>"

subsection \<open>Endpoint extraction\<close>

definition http_methods :: "string list" where
  "http_methods = [''get'', ''post'', ''put'', ''patch'', ''delete'', ''head'', ''options'']"

text \<open>\<^verbatim>\<open>spec.get('servers', [{}])[0].get('url', 'http://localhost')\<close>.\<close>

definition server_url :: "json \<Rightarrow> json result" where
  "server_url sp =
     rbind (py_get sp ''servers'' (JList [JDict []])) (\<lambda>servers.
     rbind (py_getitem0 servers) (\<lambda>server.
     py_get server ''url'' (JStr ''http://localhost'')))"

text \<open>The identifier of an operation that declares no \<^verbatim>\<open>operationId\<close>.\<close>

definition default_operation_id :: "string \<Rightarrow> string \<Rightarrow> string" where
  "default_operation_id method path =
     method @ ''_'' @ replace_str ''}'' '''' (replace_str ''{'' '''' (replace_str ''/'' ''_'' path))"

text \<open>The inner loop of \<^verbatim>\<open>parse_spec\<close>, over the items of one path.\<close>

fun parse_methods :: "json \<Rightarrow> string \<Rightarrow> (string \<times> json) list \<Rightarrow> endpoint list result" where
  "parse_methods base_url path [] = Inr []"
| "parse_methods base_url path ((method, operation) # rest) =
     (if py_lower method \<in> set http_methods then
        rbind (py_get operation ''operationId'' (JStr (default_operation_id method path))) (\<lambda>oid.
        rbind (parse_methods base_url path rest) (\<lambda>eps.
        Inr (\<lparr>ep_path = path, ep_method = py_upper method, ep_operation = operation,
              ep_operation_id = oid, ep_base_url = base_url\<rparr> # eps)))
      else parse_methods base_url path rest)"

text \<open>The outer loop of \<^verbatim>\<open>parse_spec\<close>, over the paths.\<close>

fun parse_paths :: "json \<Rightarrow> (string \<times> json) list \<Rightarrow> endpoint list result" where
  "parse_paths base_url [] = Inr []"
| "parse_paths base_url ((path, path_item) # rest) =
     (if str_in ''/admin'' path then parse_paths base_url rest
      else
        rbind (py_items path_item) (\<lambda>ms.
        rbind (parse_methods base_url path ms) (\<lambda>eps.
        rbind (parse_paths base_url rest) (\<lambda>eps'.
        Inr (eps @ eps')))))"

text \<open>
  \<^verbatim>\<open>parse_spec\<close> appends the endpoints it finds to the object's list. An exception leaves the
  method, and the object is not used again.
\<close>

definition parse_spec :: "generator \<Rightarrow> generator result" where
  "parse_spec self =
     rbind (py_get (g_spec self) ''paths'' (JDict [])) (\<lambda>paths.
     rbind (server_url (g_spec self)) (\<lambda>base_url.
     rbind (py_items paths) (\<lambda>ps.
     rbind (parse_paths base_url ps) (\<lambda>eps.
     Inr (self\<lparr>g_endpoints := g_endpoints self @ eps\<rparr>)))))"

text \<open>\<^verbatim>\<open>re.findall(r'\{(\w+)\}', path)\<close>.\<close>

function extract_path_parameters :: "string \<Rightarrow> string list" where
  "extract_path_parameters [] = []"
| "extract_path_parameters (c # cs) =
     (if c = CHR ''{'' \<and> takeWhile is_word_char cs \<noteq> []
         \<and> (case dropWhile is_word_char cs of [] \<Rightarrow> False | d # ds \<Rightarrow> d = CHR ''}'')
      then takeWhile is_word_char cs # extract_path_parameters (tl (dropWhile is_word_char cs))
      else extract_path_parameters cs)"
  by pat_completeness auto
termination
proof (relation "measure length")
  fix c :: char and cs :: string
  have "length (tl (dropWhile is_word_char cs)) \<le> length cs"
    using length_dropWhile_le [of is_word_char cs] by simp
  then show "(tl (dropWhile is_word_char cs), c # cs) \<in> measure length"
    by simp
qed auto

subsection \<open>The response-field extractor\<close>

text \<open>The innermost loop: the first property whose lower-cased name contains \<^verbatim>\<open>id\<close>.\<close>

fun find_id_like :: "(string \<times> json) list \<Rightarrow> string option" where
  "find_id_like [] = None"
| "find_id_like ((prop_name, prop_schema) # rest) =
     (if str_in ''id'' (py_lower prop_name) then Some (''json.'' @ prop_name)
      else find_id_like rest)"

text \<open>
  What the loop body does with one JSON media type: \<open>Some\<close> is the value of a
  \<^verbatim>\<open>return\<close>, \<open>None\<close> means that the loop goes on.
\<close>

definition schema_extractor :: "json \<Rightarrow> string \<Rightarrow> string option result" where
  "schema_extractor media_type param_name =
     rbind (py_get media_type ''schema'' (JDict [])) (\<lambda>schema.
     rbind (py_get schema ''properties'' (JDict [])) (\<lambda>properties.
     rbind (py_in param_name properties) (\<lambda>has_param.
     if has_param then Inr (Some (''json.'' @ param_name))
     else
       rbind (py_in ''id'' properties) (\<lambda>has_id.
       if has_id then Inr (Some ''json.id'')
       else
         rbind (py_get schema ''type'' JNull) (\<lambda>ty.
         if ty = JStr ''object'' then rbind (py_items properties) (\<lambda>ps. Inr (find_id_like ps))
         else Inr None)))))"

text \<open>The loop over the content types of one response.\<close>

fun content_extractor :: "(string \<times> json) list \<Rightarrow> string \<Rightarrow> string option result" where
  "content_extractor [] param_name = Inr None"
| "content_extractor ((content_type, media_type) # rest) param_name =
     (if str_in ''json'' (py_lower content_type) then
        rbind (schema_extractor media_type param_name) (\<lambda>r.
        case r of Some x \<Rightarrow> Inr (Some x) | None \<Rightarrow> content_extractor rest param_name)
      else content_extractor rest param_name)"

text \<open>The loop over the status codes.\<close>

fun status_extractor :: "json \<Rightarrow> string list \<Rightarrow> string \<Rightarrow> string option result" where
  "status_extractor responses [] param_name = Inr None"
| "status_extractor responses (status_code # codes) param_name =
     rbind (py_get responses status_code (JDict [])) (\<lambda>response.
     rbind (py_get response ''content'' (JDict [])) (\<lambda>content.
     rbind (py_items content) (\<lambda>cts.
     rbind (content_extractor cts param_name) (\<lambda>r.
     case r of Some x \<Rightarrow> Inr (Some x) | None \<Rightarrow> status_extractor responses codes param_name))))"

definition status_codes :: "string list" where
  "status_codes = [''200'', ''201'', ''202'', ''default'']"

definition find_response_value_extractor :: "json \<Rightarrow> string \<Rightarrow> string option result" where
  "find_response_value_extractor operation param_name =
     rbind (py_get operation ''responses'' (JDict [])) (\<lambda>responses.
     status_extractor responses status_codes param_name)"

subsection \<open>The value tracker\<close>

text \<open>\<^verbatim>\<open>extractor.split('.')[1] if '.' in extractor else extractor\<close>.\<close>

definition extractor_field :: "string \<Rightarrow> string result" where
  "extractor_field extractor =
     (if CHR ''.'' \<in> set extractor then
        (case py_split (CHR ''.'') extractor of
           a # b # rest \<Rightarrow> Inr b
         | _ \<Rightarrow> Inl IndexError)
      else Inr extractor)"

text \<open>The capture block of one path parameter.\<close>

definition param_tracker :: "string \<Rightarrow> string \<Rightarrow> string \<Rightarrow> string" where
  "param_tracker res_var field param = py_join ''\<newline>''
     ['''',
      ''        try {'',
      ''            if ('' @ res_var @ ''.status === 201 || '' @ res_var @ ''.status === 200) {'',
      ''                const json = '' @ res_var @ ''.json();'',
      ''                const value = json.'' @ field @ '';'',
      ''                if (value) {'',
      ''                    trackedValues['' @ [CHR 0x27] @ param @ [CHR 0x27] @ ''] = value;'',
      ''                    console.log(`Tracked '' @ param @ '': ${value}`);'',
      ''                }'',
      ''            }'',
      ''        } catch (e) {'',
      ''            // Response might not be JSON'',
      ''        }'']"

text \<open>The capture block of a franchise creation.\<close>

definition franchise_tracker :: "string \<Rightarrow> string" where
  "franchise_tracker res_var = py_join ''\<newline>''
     ['''',
      ''        try {'',
      ''            if ('' @ res_var @ ''.status === 201 || '' @ res_var @ ''.status === 200) {'',
      ''                const body = '' @ res_var @ ''.json();'',
      ''                if (body && body.id) {'',
      ''                    trackedValues['franchiseId'] = body.id;'',
      ''                    console.log(`Tracked franchiseId: ${body.id}`);'',
      ''                } else if (body && body.franchiseId) {'',
      ''                    trackedValues['franchiseId'] = body.franchiseId;'',
      ''                    console.log(`Tracked franchiseId: ${body.franchiseId}`);'',
      ''                }'',
      ''            }'',
      ''        } catch (e) {'',
      ''            // Response might not be JSON'',
      ''        }'']"

text \<open>The loop over the path parameters, entered for POST and PUT.\<close>

fun param_trackers :: "json \<Rightarrow> string \<Rightarrow> string list \<Rightarrow> string list result" where
  "param_trackers operation res_var [] = Inr []"
| "param_trackers operation res_var (param # rest) =
     (if str_in ''id'' (py_lower param) \<or> str_in ''franchise'' (py_lower param) then
        rbind (find_response_value_extractor operation param) (\<lambda>extractor.
        rbind (case extractor of
                 None \<Rightarrow> Inr []
               | Some e \<Rightarrow>
                   if e = [] then Inr []
                   else rbind (extractor_field e) (\<lambda>field. Inr [param_tracker res_var field param]))
          (\<lambda>t.
        rbind (param_trackers operation res_var rest) (\<lambda>ts.
        Inr (t @ ts))))
      else param_trackers operation res_var rest)"

text \<open>\<^verbatim>\<open>operation.get('method', '').upper()\<close>: only a string has \<^verbatim>\<open>upper\<close>.\<close>

definition operation_method :: "json \<Rightarrow> string result" where
  "operation_method operation =
     rbind (py_get operation ''method'' (JStr '''')) (\<lambda>m.
     case m of JStr s \<Rightarrow> Inr (py_upper s) | _ \<Rightarrow> Inl AttributeError)"

definition generate_value_tracker :: "string \<Rightarrow> json \<Rightarrow> string \<Rightarrow> string result" where
  "generate_value_tracker path operation res_var =
     rbind (operation_method operation) (\<lambda>method.
     rbind (if method \<in> set [''POST'', ''PUT'']
            then param_trackers operation res_var (extract_path_parameters path)
            else Inr []) (\<lambda>trackers.
     Inr (py_join ''\<newline>''
       (trackers @
        (if str_in ''franchise'' (py_lower path) \<and> method = ''POST''
         then [franchise_tracker res_var] else [])))))"

subsection \<open>The path resolver\<close>

definition path_replacement :: "string \<Rightarrow> string" where
  "path_replacement param =
     ''trackedValues.'' @ param @ '' || trackedValues.'' @ py_lower param @ '' || '' @
     [CHR 0x27] @ param @ [CHR 0x27]"

definition replace_path_parameters :: "string \<Rightarrow> string" where
  "replace_path_parameters path =
     foldl (\<lambda>result param.
              replace_str (''{'' @ param @ ''}'') (''${'' @ path_replacement param @ ''}'') result)
       path (extract_path_parameters path)"

subsection \<open>The request body\<close>

text \<open>
  One round of the loop over the properties: the list holds the part appended to
  \<^verbatim>\<open>body_parts\<close>, and is empty when no branch appends.
\<close>

definition body_part :: "string \<Rightarrow> json \<Rightarrow> string list result" where
  "body_part prop_name prop_schema =
     rbind (py_get prop_schema ''type'' (JStr ''string'')) (\<lambda>prop_type.
     rbind (py_get prop_schema ''default'' JNull) (\<lambda>default_value.
     if default_value \<noteq> JNull then
       (case default_value of
          JStr s \<Rightarrow> Inr [''        '' @ prop_name @ '': '' @ [CHR 0x27] @ s @ [CHR 0x27]]
        | _ \<Rightarrow> Inr [''        '' @ prop_name @ '': '' @ py_str default_value])
     else if prop_type = JStr ''string'' then
       (if str_in ''id'' (py_lower prop_name) \<or> str_in ''franchise'' (py_lower prop_name) then
          Inr [''        '' @ prop_name @ '': trackedValues.'' @ prop_name @
               '' || trackedValues.franchiseId || '' @ [CHR 0x27] @ prop_name @ ''_value'' @ [CHR 0x27]]
        else
          Inr [''        '' @ prop_name @ '': '' @ [CHR 0x27] @ prop_name @ ''_value'' @ [CHR 0x27]])
     else if prop_type = JStr ''integer'' \<or> prop_type = JStr ''number'' then
       rbind (py_get prop_schema ''default'' (JInt 0)) (\<lambda>d.
       Inr [''        '' @ prop_name @ '': '' @ py_str d])
     else if prop_type = JStr ''boolean'' then
       rbind (py_get prop_schema ''default'' (JBool False)) (\<lambda>d.
       Inr [''        '' @ prop_name @ '': '' @ py_str d])
     else if prop_type = JStr ''array'' then Inr [''        '' @ prop_name @ '': []'']
     else if prop_type = JStr ''object'' then Inr [''        '' @ prop_name @ '': {}'']
     else Inr []))"

fun body_parts :: "(string \<times> json) list \<Rightarrow> string list result" where
  "body_parts [] = Inr []"
| "body_parts ((prop_name, prop_schema) # rest) =
     rbind (body_part prop_name prop_schema) (\<lambda>p.
     rbind (body_parts rest) (\<lambda>ps.
     Inr (p @ ps)))"

definition generate_request_body :: "json \<Rightarrow> string \<Rightarrow> string result" where
  "generate_request_body schema var_name =
     rbind (py_get schema ''properties'' (JDict [])) (\<lambda>properties.
     rbind (py_get schema ''required'' (JList [])) (\<lambda>required.
     rbind (py_items properties) (\<lambda>ps.
     rbind (body_parts ps) (\<lambda>parts.
     Inr (if parts \<noteq> []
          then ''    const '' @ var_name @ '' = {\<newline>'' @ py_join '',\<newline>'' parts @ ''\<newline>    };''
          else '''')))))"

subsection \<open>Script assembly\<close>

text \<open>
  The server address is joined to the text with \<^verbatim>\<open>+\<close>, which raises TypeError unless it
  is a string.
\<close>

definition server_url_text :: "json \<Rightarrow> string result" where
  "server_url_text sp =
     rbind (server_url sp) (\<lambda>u. case u of JStr s \<Rightarrow> Inr s | _ \<Rightarrow> Inl TypeError)"

definition script_preamble :: "string \<Rightarrow> string list" where
  "script_preamble url =
     [''import http from 'k6/http';'',
      ''import { check, sleep } from 'k6';'',
      ''import { Rate } from 'k6/metrics';'',
      '''',
      ''// Error rate metric'',
      ''const errorRate = new Rate('errors');'',
      '''',
      ''// Shared state for tracked values across VUs'',
      ''const trackedValues = {};'',
      '''',
      ''export const options = {'',
      ''    stages: ['',
      ''        { duration: '30s', target: 10 },  // Ramp up'',
      ''        { duration: '1m', target: 10 },   // Stay at 10 users'',
      ''        { duration: '30s', target: 0 },   // Ramp down'',
      ''    ],'',
      ''    thresholds: {'',
      ''        'http_req_duration': ['p(95)<500'],'',
      ''        'errors': ['rate<0.1'],'',
      ''    },'',
      ''};'',
      '''',
      ''export default function () {'',
      ''    const baseUrl = __ENV.BASE_URL || '' @ [CHR 0x27] @ url @ [CHR 0x27] @ '';'',
      ''    const authKey = __ENV.AUTH_KEY || null;'',
      '''']"

definition script_trailer :: "string list" where
  "script_trailer =
     ['''',
      ''    // Small sleep between requests'',
      ''    sleep(0.5);'',
      ''}'']"

text \<open>The header block of the endpoint with index \<open>i\<close>.\<close>

definition auth_header_line :: string where
  "auth_header_line = ''        ...(authKey ? { 'Authorization': `Bearer ${authKey}` } : {}),''"

definition headers_code :: "string \<Rightarrow> string \<Rightarrow> string list" where
  "headers_code i path =
     [''    const headers'' @ i @ '' = {'',
      ''        'Content-Type': 'application/json','']
     @ (if \<not> str_in ''/admin'' path then [auth_header_line] else [])
     @ [''    };'']"

text \<open>
  The loop that looks for another JSON content type when \<^verbatim>\<open>application/json\<close> gave no
  schema: the first content type with \<^verbatim>\<open>json\<close> in its name decides, and \<open>cur\<close> stays when
  there is none.
\<close>

fun first_json_schema :: "(string \<times> json) list \<Rightarrow> json \<Rightarrow> json result" where
  "first_json_schema [] cur = Inr cur"
| "first_json_schema ((content_type, media_type) # rest) cur =
     (if str_in ''json'' (py_lower content_type) then py_get media_type ''schema'' (JDict [])
      else first_json_schema rest cur)"

definition request_body_schema :: "json \<Rightarrow> json result" where
  "request_body_schema operation =
     rbind (py_get operation ''requestBody'' (JDict [])) (\<lambda>rb.
     rbind (py_get rb ''content'' (JDict [])) (\<lambda>content.
     rbind (py_get content ''application/json'' (JDict [])) (\<lambda>aj.
     rbind (py_get aj ''schema'' (JDict [])) (\<lambda>schema.
     if \<not> py_truthy schema then
       rbind (py_get operation ''requestBody'' (JDict [])) (\<lambda>rb'.
       rbind (py_get rb' ''content'' (JDict [])) (\<lambda>content'.
       rbind (py_items content') (\<lambda>cts.
       first_json_schema cts schema)))
     else Inr schema))))"

text \<open>The pair \<^verbatim>\<open>(request_body_var, request_body_code)\<close> of one endpoint.\<close>

definition request_body :: "string \<Rightarrow> string \<Rightarrow> json \<Rightarrow> (string \<times> string) result" where
  "request_body i method operation =
     (if method \<in> set [''POST'', ''PUT'', ''PATCH''] then
        rbind (request_body_schema operation) (\<lambda>schema.
        if py_truthy schema then
          rbind (generate_request_body schema (''body'' @ i)) (\<lambda>code.
          Inr (''body'' @ i, code))
        else Inr ('''', ''''))
      else Inr ('''', ''''))"

text \<open>\<^verbatim>\<open>{**operation, 'method': method}\<close>: only a mapping can be unpacked.\<close>

definition with_method :: "json \<Rightarrow> string \<Rightarrow> json result" where
  "with_method operation method =
     (case operation of
        JDict kvs \<Rightarrow> Inr (JDict (dict_set ''method'' (JStr method) kvs))
      | _ \<Rightarrow> Inl TypeError)"

definition request_code :: "string \<Rightarrow> string \<Rightarrow> string \<Rightarrow> string" where
  "request_code i method request_body_var =
     (if request_body_var \<noteq> [] then
        ''\<newline>    const res'' @ i @ '' = http.'' @ py_lower method @ ''(url'' @ i @
        '', JSON.stringify('' @ request_body_var @ ''), { headers: headers'' @ i @ '' });''
      else
        ''\<newline>    const res'' @ i @ '' = http.'' @ py_lower method @ ''(url'' @ i @
        '', null, { headers: headers'' @ i @ '' });'')"

definition check_code :: "string \<Rightarrow> string" where
  "check_code i = py_join ''\<newline>''
     ['''',
      ''    const success'' @ i @ '' = check(res'' @ i @ '', {'',
      ''        'status is 2xx or 3xx': (r) => r.status >= 200 && r.status < 400,'',
      ''    });'',
      ''    errorRate.add(!success'' @ i @ '');'']"

text \<open>The parts that one round of the loop over the endpoints adds to the script.\<close>

definition endpoint_parts :: "nat \<Rightarrow> endpoint \<Rightarrow> string list result" where
  "endpoint_parts n ep =
     (let i = str_nat n; path = ep_path ep; method = ep_method ep; operation = ep_operation ep;
          resolved_path = replace_path_parameters path;
          url_code = ''    const url'' @ i @ '' = baseUrl + `'' @ resolved_path @ ''`;''
      in
        rbind (request_body i method operation) (\<lambda>(request_body_var, request_body_code).
        rbind (with_method operation method) (\<lambda>operation'.
        rbind (generate_value_tracker path operation' (''res'' @ i)) (\<lambda>tracker_code.
        Inr (['''',
              ''    // '' @ py_str (ep_operation_id ep) @ '': '' @ method @ '' '' @ path,
              url_code]
             @ headers_code i path
             @ [request_body_code,
                request_code i method request_body_var,
                check_code i,
                tracker_code])))))"

fun endpoints_parts :: "nat \<Rightarrow> endpoint list \<Rightarrow> string list result" where
  "endpoints_parts n [] = Inr []"
| "endpoints_parts n (ep # eps) =
     rbind (endpoint_parts n ep) (\<lambda>parts.
     rbind (endpoints_parts (Suc n) eps) (\<lambda>rest.
     Inr (parts @ rest)))"

definition generate_k6_script :: "generator \<Rightarrow> string result" where
  "generate_k6_script self =
     rbind (server_url_text (g_spec self)) (\<lambda>url.
     rbind (endpoints_parts 0 (g_endpoints self)) (\<lambda>parts.
     Inr (py_join ''\<newline>'' (script_preamble url @ parts @ script_trailer))))"

text \<open>\<^verbatim>\<open>generate\<close> returns the script; the object keeps the endpoints found.\<close>

definition generate :: "generator \<Rightarrow> (string \<times> generator) result" where
  "generate self =
     rbind (parse_spec self) (\<lambda>self'.
     rbind (generate_k6_script self') (\<lambda>script.
     Inr (script, self')))"

section \<open>Properties\<close>

subsection \<open>Reasoning about results\<close>

lemma rbind_eq_Inr_iff: "rbind m f = Inr y \<longleftrightarrow> (\<exists>x. m = Inr x \<and> f x = Inr y)"
  by (cases m) simp_all

lemma rbind_eq_Inl_iff: "rbind m f = Inl e \<longleftrightarrow> m = Inl e \<or> (\<exists>x. m = Inr x \<and> f x = Inl e)"
  by (cases m) auto

lemma py_get_Inr_iff: "py_get j k d = Inr v \<longleftrightarrow> (\<exists>kvs. j = JDict kvs \<and> v = (case map_of kvs k of None \<Rightarrow> d | Some w \<Rightarrow> w))"
  by (cases j) auto

lemma py_items_Inr_iff: "py_items j = Inr kvs \<longleftrightarrow> j = JDict kvs"
  by (cases j) auto

subsection \<open>Mappings read without exceptions\<close>

text \<open>
  The entry of a mapping under a key, or the empty mapping when the key is absent or the value
  is no mapping; the entries of a mapping in their order; and what is a mapping.
\<close>

fun entry :: "json \<Rightarrow> string \<Rightarrow> json" where
  "entry (JDict kvs) k = (case map_of kvs k of None \<Rightarrow> JDict [] | Some v \<Rightarrow> v)"
| "entry _ k = JDict []"

fun entries :: "json \<Rightarrow> (string \<times> json) list" where
  "entries (JDict kvs) = kvs"
| "entries _ = []"

fun is_mapping :: "json \<Rightarrow> bool" where
  "is_mapping (JDict kvs) = True"
| "is_mapping _ = False"

subsection \<open>What the script depends on\<close>

text \<open>
  The script is a function of the specification and of the endpoints the object already
  holds: no other attribute of the object is read.
\<close>

definition script_of :: "json \<Rightarrow> endpoint list \<Rightarrow> string result" where
  "script_of sp eps0 =
     rbind (py_get sp ''paths'' (JDict [])) (\<lambda>paths.
     rbind (server_url sp) (\<lambda>base_url.
     rbind (py_items paths) (\<lambda>ps.
     rbind (parse_paths base_url ps) (\<lambda>eps.
     rbind (server_url_text sp) (\<lambda>url.
     rbind (endpoints_parts 0 (eps0 @ eps)) (\<lambda>parts.
     Inr (py_join ''\<newline>'' (script_preamble url @ parts @ script_trailer))))))))"

lemma generate_script_of: "map_sum id fst (generate self) = script_of (g_spec self) (g_endpoints self)"
proof (cases "py_get (g_spec self) ''paths'' (JDict [])")
  case (Inl e)
  then show ?thesis by (simp add: generate_def parse_spec_def script_of_def)
next
  case paths: (Inr paths)
  show ?thesis
  proof (cases "server_url (g_spec self)")
    case (Inl e)
    with paths show ?thesis by (simp add: generate_def parse_spec_def script_of_def)
  next
    case base: (Inr base_url)
    show ?thesis
    proof (cases "py_items paths")
      case (Inl e)
      with paths base show ?thesis by (simp add: generate_def parse_spec_def script_of_def)
    next
      case items: (Inr ps)
      show ?thesis
      proof (cases "parse_paths base_url ps")
        case (Inl e)
        with paths base items show ?thesis
          by (simp add: generate_def parse_spec_def script_of_def)
      next
        case eps: (Inr eps)
        show ?thesis
        proof (cases "server_url_text (g_spec self)")
          case (Inl e)
          with paths base items eps show ?thesis
            by (simp add: generate_def parse_spec_def script_of_def generate_k6_script_def)
        next
          case url: (Inr url)
          with paths base items eps show ?thesis
            by (cases "endpoints_parts 0 (g_endpoints self @ eps)")
              (simp_all add: generate_def parse_spec_def script_of_def generate_k6_script_def)
        qed
      qed
    qed
  qed
qed

lemma parse_spec_keeps:
  assumes "parse_spec self = Inr self'"
  shows "g_spec self' = g_spec self \<and> g_auth_key self' = g_auth_key self
    \<and> g_tracked_values self' = g_tracked_values self"
  using assms by (auto simp: parse_spec_def rbind_eq_Inr_iff)

lemma generate_keeps:
  assumes "generate self = Inr (script, self')"
  shows "g_spec self' = g_spec self \<and> g_auth_key self' = g_auth_key self"
proof -
  from assms have "parse_spec self = Inr self'"
    by (auto simp: generate_def rbind_eq_Inr_iff)
  then show ?thesis
    using parse_spec_keeps by blast
qed

subsection \<open>Texts inside the script\<close>

lemma rbind_assoc: "rbind (rbind m f) g = rbind m (\<lambda>x. rbind (f x) g)"
  by (cases m) simp_all

lemma str_in_iff: "str_in a b \<longleftrightarrow> (\<exists>u v. b = u @ a @ v)"
proof (induction b)
  case Nil
  then show ?case by simp
next
  case (Cons c cs)
  show ?case
  proof
    assume "str_in a (c # cs)"
    then consider "prefix a (c # cs)" | "str_in a cs"
      by auto
    then show "\<exists>u v. c # cs = u @ a @ v"
    proof cases
      case 1
      then obtain v where "c # cs = [] @ a @ v"
        by (auto simp: prefix_def)
      then show ?thesis by blast
    next
      case 2
      with Cons.IH obtain u v where "cs = u @ a @ v"
        by blast
      then have "c # cs = (c # u) @ a @ v"
        by simp
      then show ?thesis by blast
    qed
  next
    assume "\<exists>u v. c # cs = u @ a @ v"
    then obtain u v where uv: "c # cs = u @ a @ v"
      by blast
    show "str_in a (c # cs)"
    proof (cases u)
      case Nil
      with uv have "prefix a (c # cs)"
        by (simp add: prefix_def)
      then show ?thesis by simp
    next
      case later: (Cons d u')
      with uv have "cs = u' @ a @ v"
        by simp
      with Cons.IH have "str_in a cs"
        by blast
      then show ?thesis by simp
    qed
  qed
qed

lemma str_in_trans:
  assumes "str_in a b" "str_in b c"
  shows "str_in a c"
proof -
  from assms obtain u v u' v' where "b = u @ a @ v" "c = u' @ b @ v'"
    unfolding str_in_iff by blast
  then have "c = (u' @ u) @ a @ (v @ v')"
    by simp
  then show ?thesis
    unfolding str_in_iff by blast
qed

lemma py_join_append:
  "py_join sep (xs @ ys) =
     (if xs = [] then py_join sep ys else if ys = [] then py_join sep xs
      else py_join sep xs @ sep @ py_join sep ys)"
proof (induction sep xs rule: py_join.induct)
  case (1 sep)
  then show ?case by simp
next
  case (2 sep x)
  then show ?case by (cases ys) simp_all
next
  case (3 sep x y ys)
  then show ?case by simp
qed

text \<open>The lines of a run of parts stand together in the joined text.\<close>

lemma str_in_py_join: "str_in (py_join sep ys) (py_join sep (xs @ ys @ zs))"
proof (cases "ys = []")
  case True
  have "py_join sep (xs @ zs) = [] @ [] @ py_join sep (xs @ zs)"
    by simp
  with True show ?thesis
    unfolding str_in_iff by auto
next
  case False
  define A where "A = (if xs = [] then [] else py_join sep xs @ sep)"
  define B where "B = (if zs = [] then [] else sep @ py_join sep zs)"
  from False have "py_join sep (xs @ ys @ zs) = A @ py_join sep ys @ B"
    by (simp add: py_join_append A_def B_def)
  then show ?thesis
    unfolding str_in_iff by blast
qed

lemma str_in_py_join_member:
  assumes "y \<in> set ys"
  shows "str_in y (py_join sep ys)"
proof -
  from assms obtain xs zs where "ys = xs @ [y] @ zs"
    by (auto simp: in_set_conv_decomp)
  with str_in_py_join [of sep "[y]" xs zs] show ?thesis
    by simp
qed

text \<open>The parts of the endpoint with index \<open>i\<close> are a run of the parts of all endpoints.\<close>

lemma endpoints_parts_nth:
  assumes "endpoints_parts n eps = Inr parts" "i < length eps"
  shows "\<exists>ps before after. endpoint_parts (n + i) (eps ! i) = Inr ps \<and> parts = before @ ps @ after"
  using assms
proof (induction eps arbitrary: n parts i)
  case Nil
  then show ?case by simp
next
  case (Cons ep eps)
  from Cons.prems(1) obtain p rest where p: "endpoint_parts n ep = Inr p"
    and rest: "endpoints_parts (Suc n) eps = Inr rest" and parts: "parts = p @ rest"
    by (auto simp: rbind_eq_Inr_iff)
  show ?case
  proof (cases i)
    case 0
    with p parts have "endpoint_parts (n + i) ((ep # eps) ! i) = Inr p \<and> parts = [] @ p @ rest"
      by simp
    then show ?thesis by blast
  next
    case (Suc j)
    with Cons.prems(2) have "j < length eps"
      by simp
    from Cons.IH [OF rest this] obtain ps before after
      where "endpoint_parts (Suc n + j) (eps ! j) = Inr ps" "rest = before @ ps @ after"
      by blast
    with Suc parts have "endpoint_parts (n + i) ((ep # eps) ! i) = Inr ps
        \<and> parts = (p @ before) @ ps @ after"
      by simp
    then show ?thesis by blast
  qed
qed

lemma endpoints_parts_append:
  assumes "endpoints_parts n (xs @ ys) = Inr ps"
  shows "\<exists>a b. endpoints_parts n xs = Inr a \<and> endpoints_parts (n + length xs) ys = Inr b \<and> ps = a @ b"
  using assms
proof (induction xs arbitrary: n ps)
  case Nil
  then show ?case by simp
next
  case (Cons x xs)
  from Cons.prems obtain p rest where p: "endpoint_parts n x = Inr p"
    and rest: "endpoints_parts (Suc n) (xs @ ys) = Inr rest" and ps: "ps = p @ rest"
    by (auto simp: rbind_eq_Inr_iff)
  from Cons.IH [OF rest] obtain a b where "endpoints_parts (Suc n) xs = Inr a"
    "endpoints_parts (Suc n + length xs) ys = Inr b" "rest = a @ b"
    by blast
  with p ps have "endpoints_parts n (x # xs) = Inr (p @ a)
      \<and> endpoints_parts (n + length (x # xs)) ys = Inr b \<and> ps = (p @ a) @ b"
    by simp
  then show ?case by blast
qed

text \<open>What a call of \<^verbatim>\<open>generate\<close> that returns has done.\<close>

definition extract_endpoints :: "json \<Rightarrow> endpoint list result" where
  "extract_endpoints sp =
     rbind (py_get sp ''paths'' (JDict [])) (\<lambda>paths.
     rbind (server_url sp) (\<lambda>base_url.
     rbind (py_items paths) (\<lambda>ps.
     parse_paths base_url ps)))"

lemma parse_spec_extract:
  "parse_spec self =
     rbind (extract_endpoints (g_spec self)) (\<lambda>eps. Inr (self\<lparr>g_endpoints := g_endpoints self @ eps\<rparr>))"
  by (simp add: parse_spec_def extract_endpoints_def rbind_assoc)

lemma generate_Inr:
  assumes "generate self = Inr (script, self')"
  shows "\<exists>eps url parts. extract_endpoints (g_spec self) = Inr eps
    \<and> self' = self\<lparr>g_endpoints := g_endpoints self @ eps\<rparr>
    \<and> server_url_text (g_spec self) = Inr url
    \<and> endpoints_parts 0 (g_endpoints self @ eps) = Inr parts
    \<and> script = py_join ''\<newline>'' (script_preamble url @ parts @ script_trailer)"
proof -
  from assms have parse: "parse_spec self = Inr self'" and script: "generate_k6_script self' = Inr script"
    by (auto simp: generate_def rbind_eq_Inr_iff)
  from parse obtain eps where eps: "extract_endpoints (g_spec self) = Inr eps"
    and self': "self' = self\<lparr>g_endpoints := g_endpoints self @ eps\<rparr>"
    unfolding parse_spec_extract rbind_eq_Inr_iff by auto
  from script self' obtain url parts where "server_url_text (g_spec self) = Inr url"
    "endpoints_parts 0 (g_endpoints self @ eps) = Inr parts"
    "script = py_join ''\<newline>'' (script_preamble url @ parts @ script_trailer)"
    by (auto simp: generate_k6_script_def rbind_eq_Inr_iff)
  with eps self' show ?thesis
    by blast
qed

text \<open>The block of every endpoint stands in the script of a run from a new object.\<close>

lemma generate_block:
  assumes "generate (OpenAPIToK6 sp k) = Inr (script, self')" "i < length (g_endpoints self')"
  shows "\<exists>ps. endpoint_parts i (g_endpoints self' ! i) = Inr ps \<and> str_in (py_join ''\<newline>'' ps) script"
proof -
  from generate_Inr [OF assms(1)] obtain url parts
    where parts: "endpoints_parts 0 (g_endpoints self') = Inr parts"
      and script: "script = py_join ''\<newline>'' (script_preamble url @ parts @ script_trailer)"
    by (auto simp: OpenAPIToK6_def)
  from endpoints_parts_nth [OF parts assms(2)] obtain ps before after
    where ps: "endpoint_parts i (g_endpoints self' ! i) = Inr ps" and run: "parts = before @ ps @ after"
    by auto
  have "str_in (py_join ''\<newline>'' ps)
      (py_join ''\<newline>'' ((script_preamble url @ before) @ ps @ (after @ script_trailer)))"
    by (rule str_in_py_join)
  with script run have "str_in (py_join ''\<newline>'' ps) script"
    by simp
  with ps show ?thesis
    by blast
qed

lemma generate_preamble:
  assumes "generate self = Inr (script, self')"
  shows "\<exists>url. server_url_text (g_spec self) = Inr url \<and> (\<forall>line \<in> set (script_preamble url). str_in line script)"
proof -
  from generate_Inr [OF assms(1)] obtain url parts
    where url: "server_url_text (g_spec self) = Inr url"
      and script: "script = py_join ''\<newline>'' (script_preamble url @ parts @ script_trailer)"
    by auto
  have "str_in line script" if "line \<in> set (script_preamble url)" for line
    unfolding script by (rule str_in_py_join_member) (use that in simp)
  with url show ?thesis
    by blast
qed

subsection \<open>Request bodies: a declared default\<close>

text \<open>
  C3. A declared default is written as Python prints it. On the schema
  \<^verbatim>\<open>{properties: {name: {type: string}, active: {type: boolean, default: true}}}\<close> the
  property \<^verbatim>\<open>name\<close> gets the placeholder \<^verbatim>\<open>'name_value'\<close>, and the property \<^verbatim>\<open>active\<close> gets
  \<^verbatim>\<open>True\<close>, Python's spelling of the boolean, which is no literal of the script's language.
\<close>

theorem request_body_default_true:
  "generate_request_body
     (JDict [(''properties'', JDict
        [(''name'', JDict [(''type'', JStr ''string'')]),
         (''active'', JDict [(''type'', JStr ''boolean''), (''default'', JBool True)])])])
     ''body0''
   = Inr (''    const body0 = {\<newline>        name: '' @ [CHR 0x27] @ ''name_value'' @ [CHR 0x27]
          @ '',\<newline>        active: True\<newline>    };'')"
  by code_simp

subsection \<open>Determinism, and a second call on the same object\<close>

lemma length_py_join:
  "xs \<noteq> [] \<Longrightarrow> length (py_join sep xs) + length sep = sum_list (map (\<lambda>x. length x + length sep) xs)"
  by (induction sep xs rule: py_join.induct) simp_all

lemma length_le_sum_list: "length xs \<le> sum_list (map (\<lambda>x. length x + Suc 0) xs)"
  by (induction xs) simp_all

lemma py_join_longer:
  assumes "a \<noteq> []" "b \<noteq> []"
  shows "length (py_join ''\<newline>'' (a @ c)) < length (py_join ''\<newline>'' (a @ b @ c))"
proof -
  from assms(1) have short: "length (py_join ''\<newline>'' (a @ c)) + 1
      = sum_list (map (\<lambda>x. length x + Suc 0) a) + sum_list (map (\<lambda>x. length x + Suc 0) c)"
    using length_py_join [of "a @ c" "''\<newline>''"] by simp
  from assms(1) have long: "length (py_join ''\<newline>'' (a @ b @ c)) + 1
      = sum_list (map (\<lambda>x. length x + Suc 0) a) + sum_list (map (\<lambda>x. length x + Suc 0) b)
        + sum_list (map (\<lambda>x. length x + Suc 0) c)"
    using length_py_join [of "a @ b @ c" "''\<newline>''"] by simp
  from assms(2) have "0 < length b"
    by simp
  with length_le_sum_list [of b] have "0 < sum_list (map (\<lambda>x. length x + Suc 0) b)"
    by linarith
  with short long show ?thesis
    by linarith
qed

lemma endpoint_parts_not_Nil:
  assumes "endpoint_parts n ep = Inr ps"
  shows "ps \<noteq> []"
  using assms by (auto simp: endpoint_parts_def Let_def rbind_eq_Inr_iff)

lemma endpoints_parts_not_Nil:
  assumes "endpoints_parts n eps = Inr ps" "eps \<noteq> []"
  shows "ps \<noteq> []"
proof (cases eps)
  case Nil
  with assms(2) show ?thesis by simp
next
  case (Cons ep rest)
  with assms(1) obtain p r where "endpoint_parts n ep = Inr p" "ps = p @ r"
    by (auto simp: rbind_eq_Inr_iff)
  with endpoint_parts_not_Nil show ?thesis
    by auto
qed

lemma script_preamble_not_Nil: "script_preamble url \<noteq> []"
  by (simp add: script_preamble_def)

text \<open>Whether a block can be written does not depend on the number of the endpoint.\<close>

lemma generate_request_body_var:
  assumes "generate_request_body schema v = Inr c"
  shows "\<exists>c'. generate_request_body schema v' = Inr c'"
proof -
  from assms obtain properties required ps parts
    where "py_get schema ''properties'' (JDict []) = Inr properties"
      "py_get schema ''required'' (JList []) = Inr required"
      "py_items properties = Inr ps" "body_parts ps = Inr parts"
    by (auto simp: generate_request_body_def rbind_eq_Inr_iff)
  then show ?thesis
    by (simp add: generate_request_body_def)
qed

lemma request_body_index:
  assumes "request_body i method operation = Inr r"
  shows "\<exists>r'. request_body j method operation = Inr r'"
proof (cases "method \<in> set [''POST'', ''PUT'', ''PATCH'']")
  case False
  then show ?thesis
    by (simp add: request_body_def)
next
  case True
  with assms obtain schema where schema: "request_body_schema operation = Inr schema"
    and rest: "(if py_truthy schema
          then rbind (generate_request_body schema (''body'' @ i)) (\<lambda>code. Inr (''body'' @ i, code))
          else Inr ('''', '''')) = Inr r"
    by (auto simp: request_body_def rbind_eq_Inr_iff)
  show ?thesis
  proof (cases "py_truthy schema")
    case False
    with True schema show ?thesis
      by (simp add: request_body_def)
  next
    case truthy: True
    with rest obtain code where "generate_request_body schema (''body'' @ i) = Inr code"
      by (auto simp: rbind_eq_Inr_iff)
    from generate_request_body_var [OF this] obtain code'
      where "generate_request_body schema (''body'' @ j) = Inr code'"
      by blast
    with True schema truthy show ?thesis
      by (simp add: request_body_def)
  qed
qed

lemma param_trackers_var:
  assumes "param_trackers operation r params = Inr ts"
  shows "\<exists>ts'. param_trackers operation r' params = Inr ts'"
  using assms
proof (induction params arbitrary: ts)
  case Nil
  then show ?case by simp
next
  case (Cons p ps)
  show ?case
  proof (cases "str_in ''id'' (py_lower p) \<or> str_in ''franchise'' (py_lower p)")
    case False
    with Cons show ?thesis by simp
  next
    case True
    with Cons.prems obtain extractor t ts0
      where found: "find_response_value_extractor operation p = Inr extractor"
        and one: "(case extractor of
                 None \<Rightarrow> Inr []
               | Some e \<Rightarrow>
                   if e = [] then Inr []
                   else rbind (extractor_field e) (\<lambda>field. Inr [param_tracker r field p])) = Inr t"
        and rest: "param_trackers operation r ps = Inr ts0"
      by (auto simp: rbind_eq_Inr_iff)
    from Cons.IH [OF rest] obtain ts1 where rest': "param_trackers operation r' ps = Inr ts1"
      by blast
    have "\<exists>t'. (case extractor of
                 None \<Rightarrow> Inr []
               | Some e \<Rightarrow>
                   if e = [] then Inr []
                   else rbind (extractor_field e) (\<lambda>field. Inr [param_tracker r' field p])) = Inr t'"
    proof (cases extractor)
      case None
      then show ?thesis by simp
    next
      case (Some e)
      show ?thesis
      proof (cases "e = []")
        case True
        with Some show ?thesis by simp
      next
        case False
        with one Some obtain field where "extractor_field e = Inr field"
          by (auto simp: rbind_eq_Inr_iff)
        with False Some show ?thesis by simp
      qed
    qed
    then obtain t' where "(case extractor of
                 None \<Rightarrow> Inr []
               | Some e \<Rightarrow>
                   if e = [] then Inr []
                   else rbind (extractor_field e) (\<lambda>field. Inr [param_tracker r' field p])) = Inr t'"
      by blast
    with True found rest' show ?thesis
      by simp
  qed
qed

lemma generate_value_tracker_var:
  assumes "generate_value_tracker path operation r = Inr code"
  shows "\<exists>code'. generate_value_tracker path operation r' = Inr code'"
proof -
  from assms obtain verb where verb: "operation_method operation = Inr verb"
    by (auto simp: generate_value_tracker_def rbind_eq_Inr_iff)
  show ?thesis
  proof (cases "verb \<in> set [''POST'', ''PUT'']")
    case False
    with verb show ?thesis
      by (simp add: generate_value_tracker_def)
  next
    case True
    with assms verb obtain ts where "param_trackers operation r (extract_path_parameters path) = Inr ts"
      by (auto simp: generate_value_tracker_def rbind_eq_Inr_iff)
    from param_trackers_var [OF this] obtain ts'
      where "param_trackers operation r' (extract_path_parameters path) = Inr ts'"
      by blast
    with True verb show ?thesis
      by (simp add: generate_value_tracker_def)
  qed
qed

lemma endpoint_parts_index:
  assumes "endpoint_parts n ep = Inr ps"
  shows "\<exists>ps'. endpoint_parts m ep = Inr ps'"
proof -
  from assms obtain body operation' code
    where body: "request_body (str_nat n) (ep_method ep) (ep_operation ep) = Inr body"
      and op: "with_method (ep_operation ep) (ep_method ep) = Inr operation'"
      and code: "generate_value_tracker (ep_path ep) operation' (''res'' @ str_nat n) = Inr code"
    by (auto simp: endpoint_parts_def Let_def rbind_eq_Inr_iff)
  from request_body_index [OF body] obtain body'
    where body': "request_body (str_nat m) (ep_method ep) (ep_operation ep) = Inr body'"
    by blast
  from generate_value_tracker_var [OF code] obtain code'
    where "generate_value_tracker (ep_path ep) operation' (''res'' @ str_nat m) = Inr code'"
    by blast
  with body' op show ?thesis
    by (cases body') (simp add: endpoint_parts_def Let_def)
qed

lemma endpoints_parts_index:
  assumes "endpoints_parts n eps = Inr ps"
  shows "\<exists>ps'. endpoints_parts m eps = Inr ps'"
  using assms
proof (induction eps arbitrary: n m ps)
  case Nil
  then show ?case by simp
next
  case (Cons ep eps)
  from Cons.prems obtain p rest where p: "endpoint_parts n ep = Inr p"
    and rest: "endpoints_parts (Suc n) eps = Inr rest"
    by (auto simp: rbind_eq_Inr_iff)
  from endpoint_parts_index [OF p] obtain p' where "endpoint_parts m ep = Inr p'"
    by blast
  moreover from Cons.IH [OF rest] obtain rest' where "endpoints_parts (Suc m) eps = Inr rest'"
    by blast
  ultimately show ?case
    by simp
qed

lemma endpoints_parts_append_Inr:
  assumes "endpoints_parts n xs = Inr a" "endpoints_parts (n + length xs) ys = Inr b"
  shows "endpoints_parts n (xs @ ys) = Inr (a @ b)"
  using assms
proof (induction xs arbitrary: n a)
  case Nil
  then show ?case by simp
next
  case (Cons x xs)
  from Cons.prems(1) obtain p rest where p: "endpoint_parts n x = Inr p"
    and rest: "endpoints_parts (Suc n) xs = Inr rest" and a: "a = p @ rest"
    by (auto simp: rbind_eq_Inr_iff)
  from Cons.prems(2) have "endpoints_parts (Suc n + length xs) ys = Inr b"
    by simp
  from Cons.IH [OF rest this] p a show ?case
    by simp
qed

text \<open>A second call on the object of a run that returned a script returns one too.\<close>

lemma second_call_returns:
  assumes "generate (OpenAPIToK6 sp k) = Inr (script, self')"
  shows "\<exists>script' self''. generate self' = Inr (script', self'')"
proof -
  from generate_Inr [OF assms] obtain eps url parts
    where eps: "extract_endpoints sp = Inr eps"
      and self': "self' = \<lparr>g_spec = sp, g_auth_key = k, g_tracked_values = [], g_endpoints = eps\<rparr>"
      and url: "server_url_text sp = Inr url"
      and parts: "endpoints_parts 0 eps = Inr parts"
    by (auto simp: OpenAPIToK6_def)
  from endpoints_parts_index [OF parts] obtain b where "endpoints_parts (0 + length eps) eps = Inr b"
    by blast
  with parts have "endpoints_parts 0 (eps @ eps) = Inr (parts @ b)"
    by (rule endpoints_parts_append_Inr)
  with eps self' url show ?thesis
    by (simp add: generate_def parse_spec_extract generate_k6_script_def)
qed

text \<open>The specification of the example: one path with one operation.\<close>

definition users_example :: json where
  "users_example = JDict [(''paths'', JDict [(''/users'', JDict [(''get'', JDict [])])])]"

text \<open>A first run on the example, and a second call on the object it leaves.\<close>

definition first_run :: "(string \<times> generator) result" where
  "first_run = generate (OpenAPIToK6 users_example (Some ''key''))"

definition second_run :: "(string \<times> generator) result" where
  "second_run = generate (snd (projr first_run))"

lemma first_call:
  assumes "generate (OpenAPIToK6 sp k) = Inr (script, self')"
  shows "g_spec self' = sp \<and> g_auth_key self' = k
    \<and> map_sum id fst (generate (OpenAPIToK6 (g_spec self') (g_auth_key self'))) = Inr script"
proof -
  from generate_Inr [OF assms] have "g_spec self' = sp" "g_auth_key self' = k"
    by (auto simp: OpenAPIToK6_def)
  with assms show ?thesis
    by simp
qed

lemma second_call:
  assumes first: "generate (OpenAPIToK6 sp k) = Inr (script, self')"
    and second: "generate self' = Inr (script', self'')"
  shows "g_spec self'' = sp \<and> g_auth_key self'' = k
      \<and> g_endpoints self'' = g_endpoints self' @ g_endpoints self'
      \<and> (script' = script \<longleftrightarrow> g_endpoints self' = [])"
proof -
  from generate_Inr [OF first] obtain eps url parts
    where eps: "extract_endpoints sp = Inr eps"
      and self': "self' = \<lparr>g_spec = sp, g_auth_key = k, g_tracked_values = [], g_endpoints = eps\<rparr>"
      and url: "server_url_text sp = Inr url"
      and parts: "endpoints_parts 0 eps = Inr parts"
      and script: "script = py_join ''\<newline>'' (script_preamble url @ parts @ script_trailer)"
    by (auto simp: OpenAPIToK6_def)
  from self' have same: "g_spec self' = sp" "g_auth_key self' = k" and held: "g_endpoints self' = eps"
    by simp_all
  from generate_Inr [OF second] eps url same held obtain parts'
    where self'': "self'' = self'\<lparr>g_endpoints := eps @ eps\<rparr>"
      and parts': "endpoints_parts 0 (eps @ eps) = Inr parts'"
      and script': "script' = py_join ''\<newline>'' (script_preamble url @ parts' @ script_trailer)"
    by auto
  from endpoints_parts_append [OF parts'] parts obtain b
    where b: "endpoints_parts (length eps) eps = Inr b" and both: "parts' = parts @ b"
    by auto
  have "script' = script \<longleftrightarrow> eps = []"
  proof (cases "eps = []")
    case True
    with b both have "parts' = parts"
      by simp
    with script script' True show ?thesis
      by simp
  next
    case False
    with b have "b \<noteq> []"
      by (rule endpoints_parts_not_Nil)
    then have "length (py_join ''\<newline>'' ((script_preamble url @ parts) @ script_trailer))
        < length (py_join ''\<newline>'' ((script_preamble url @ parts) @ b @ script_trailer))"
      by (intro py_join_longer) (simp_all add: script_preamble_not_Nil)
    with script script' both have "length script < length script'"
      by simp
    with False show ?thesis
      by auto
  qed
  with self'' same held show ?thesis
    by simp
qed

text \<open>
  C8, as the code has it. A run that builds its object from the specification and the key, as
  the command line does, leaves both as they were, and another run from them returns the same
  script. A second call of \<^verbatim>\<open>generate\<close> on the same object, whose specification and key are
  unchanged, returns a script too; it extracts the endpoints again and appends them to those the
  object holds: the object then holds every endpoint twice, and the second script is the first
  one only when the specification has no endpoint.
\<close>

theorem generate_again:
  "generate (OpenAPIToK6 sp k) = Inr (script, self') \<longrightarrow>
     g_spec self' = sp \<and> g_auth_key self' = k
     \<and> map_sum id fst (generate (OpenAPIToK6 (g_spec self') (g_auth_key self'))) = Inr script
     \<and> (\<exists>script' self''. generate self' = Inr (script', self''))
     \<and> (generate self' = Inr (script', self'') \<longrightarrow>
          g_spec self'' = sp \<and> g_auth_key self'' = k
          \<and> g_endpoints self'' = g_endpoints self' @ g_endpoints self'
          \<and> (script' = script \<longleftrightarrow> g_endpoints self' = []))"
proof (intro impI)
  assume first: "generate (OpenAPIToK6 sp k) = Inr (script, self')"
  from first_call [OF first] second_call_returns [OF first] second_call [OF first]
  show "g_spec self' = sp \<and> g_auth_key self' = k
     \<and> map_sum id fst (generate (OpenAPIToK6 (g_spec self') (g_auth_key self'))) = Inr script
     \<and> (\<exists>script' self''. generate self' = Inr (script', self''))
     \<and> (generate self' = Inr (script', self'') \<longrightarrow>
          g_spec self'' = sp \<and> g_auth_key self'' = k
          \<and> g_endpoints self'' = g_endpoints self' @ g_endpoints self'
          \<and> (script' = script \<longleftrightarrow> g_endpoints self' = []))"
    by blast
qed

theorem generate_again_witness:
  "generate (OpenAPIToK6 users_example (Some ''key'')) = Inr (fst (projr first_run), snd (projr first_run))
   \<and> g_spec (snd (projr first_run)) = users_example
   \<and> g_auth_key (snd (projr first_run)) = Some ''key''
   \<and> generate (snd (projr first_run)) = Inr (fst (projr second_run), snd (projr second_run))
   \<and> g_spec (snd (projr second_run)) = users_example
   \<and> g_auth_key (snd (projr second_run)) = Some ''key''
   \<and> length (g_endpoints (snd (projr first_run))) = 1
   \<and> length (g_endpoints (snd (projr second_run))) = 2
   \<and> fst (projr second_run) \<noteq> fst (projr first_run)"
proof -
  have first: "generate (OpenAPIToK6 users_example (Some ''key''))
      = Inr (fst (projr first_run), snd (projr first_run))"
    by code_simp
  have second: "generate (snd (projr first_run)) = Inr (fst (projr second_run), snd (projr second_run))"
    by code_simp
  have held: "length (g_endpoints (snd (projr first_run))) = 1"
    by code_simp
  from generate_again [of users_example "Some ''key''" "fst (projr first_run)" "snd (projr first_run)"
      "fst (projr second_run)" "snd (projr second_run)"] first second
  have facts: "g_spec (snd (projr first_run)) = users_example
    \<and> g_auth_key (snd (projr first_run)) = Some ''key''
    \<and> g_spec (snd (projr second_run)) = users_example
    \<and> g_auth_key (snd (projr second_run)) = Some ''key''
    \<and> g_endpoints (snd (projr second_run))
       = g_endpoints (snd (projr first_run)) @ g_endpoints (snd (projr first_run))
    \<and> (fst (projr second_run) = fst (projr first_run) \<longleftrightarrow> g_endpoints (snd (projr first_run)) = [])"
    by blast
  from held have "g_endpoints (snd (projr first_run)) \<noteq> []"
    by auto
  with facts held have "length (g_endpoints (snd (projr second_run))) = 2"
    "fst (projr second_run) \<noteq> fst (projr first_run)"
    by simp_all
  with facts first second held show ?thesis
    by blast
qed

text \<open>
  The claim as it was worded has every second generation from an unchanged specification and key
  return the same text. On the object of a first run, whose specification and key are unchanged,
  a second call returns another script: the object holds the only endpoint twice, and the script
  has two blocks for it.
\<close>

theorem generate_again_counterexample:
  "generate (OpenAPIToK6 users_example (Some ''key'')) = Inr (fst (projr first_run), snd (projr first_run))
   \<and> g_spec (snd (projr first_run)) = users_example
   \<and> g_auth_key (snd (projr first_run)) = Some ''key''
   \<and> generate (snd (projr first_run)) = Inr (fst (projr second_run), snd (projr second_run))
   \<and> map ep_path (g_endpoints (snd (projr first_run))) = [''/users'']
   \<and> map ep_path (g_endpoints (snd (projr second_run))) = [''/users'', ''/users'']
   \<and> fst (projr second_run) \<noteq> fst (projr first_run)"
proof -
  have first: "generate (OpenAPIToK6 users_example (Some ''key''))
      = Inr (fst (projr first_run), snd (projr first_run))"
    by code_simp
  have second: "generate (snd (projr first_run)) = Inr (fst (projr second_run), snd (projr second_run))"
    by code_simp
  have held: "map ep_path (g_endpoints (snd (projr first_run))) = [''/users'']"
    "map ep_path (g_endpoints (snd (projr second_run))) = [''/users'', ''/users'']"
    by code_simp+
  from held(1) have "g_endpoints (snd (projr first_run)) \<noteq> []"
    by auto
  with second_call [OF first second] have "fst (projr second_run) \<noteq> fst (projr first_run)"
    by simp
  moreover from first_call [OF first] have "g_spec (snd (projr first_run)) = users_example"
    "g_auth_key (snd (projr first_run)) = Some ''key''"
    by simp_all
  ultimately show ?thesis
    using first second held by blast
qed

subsection \<open>The authorization key\<close>

text \<open>
  C9. The key passed to the constructor has no influence on the script: two runs on the same
  specification with any two keys, or with none, end alike, with the same script or with the
  same exception.
\<close>

theorem auth_key_not_in_script:
  "map_sum id fst (generate (OpenAPIToK6 sp k1)) = map_sum id fst (generate (OpenAPIToK6 sp k2))"
  by (simp add: generate_script_of OpenAPIToK6_def)

subsection \<open>An empty list of servers\<close>

lemma server_url_empty_servers:
  assumes "map_of d ''servers'' = Some (JList [])"
  shows "server_url (JDict d) = Inl IndexError"
  using assms by (simp add: server_url_def)

lemma server_url_Inr:
  assumes "server_url sp = Inr u"
  shows "\<exists>d. sp = JDict d \<and>
    (map_of d ''servers'' = None \<or> (\<exists>x xs. map_of d ''servers'' = Some (JList (x # xs))))"
proof -
  from assms obtain d servers server where sp: "sp = JDict d"
    and servers: "servers = (case map_of d ''servers'' of None \<Rightarrow> JList [JDict []] | Some w \<Rightarrow> w)"
    and first: "py_getitem0 servers = Inr server"
    and url: "py_get server ''url'' (JStr ''http://localhost'') = Inr u"
    by (auto simp: server_url_def rbind_eq_Inr_iff py_get_Inr_iff)
  from url obtain kvs where server: "server = JDict kvs"
    by (auto simp: py_get_Inr_iff)
  from first server have "\<exists>xs. servers = JList (JDict kvs # xs)"
    by (cases servers rule: py_getitem0.cases) auto
  with servers sp show ?thesis
    by (cases "map_of d ''servers''") auto
qed

text \<open>
  C10. A specification whose \<^verbatim>\<open>servers\<close> entry is an empty list ends extraction, script
  assembly and the whole run with IndexError, raised where element 0 of the list is read;
  the placeholder host is the address only when the entry is absent. A run that returns a
  script had a specification whose \<^verbatim>\<open>servers\<close> entry is absent or a non-empty list.
\<close>

theorem empty_servers_abort:
  "(map_of d ''servers'' = Some (JList []) \<longrightarrow>
      parse_spec (OpenAPIToK6 (JDict d) k) = Inl IndexError
      \<and> generate_k6_script (OpenAPIToK6 (JDict d) k) = Inl IndexError
      \<and> generate (OpenAPIToK6 (JDict d) k) = Inl IndexError)
   \<and> (map_of d ''servers'' = None \<longrightarrow> server_url (JDict d) = Inr (JStr ''http://localhost''))
   \<and> (generate (OpenAPIToK6 sp k') = Inr r \<longrightarrow>
      (\<exists>d'. sp = JDict d' \<and>
        (map_of d' ''servers'' = None \<or> (\<exists>x xs. map_of d' ''servers'' = Some (JList (x # xs))))))"
proof (intro conjI impI)
  assume empty: "map_of d ''servers'' = Some (JList [])"
  then have url: "server_url (JDict d) = Inl IndexError"
    by (rule server_url_empty_servers)
  then show parse: "parse_spec (OpenAPIToK6 (JDict d) k) = Inl IndexError"
    by (simp add: parse_spec_def OpenAPIToK6_def)
  from url show "generate_k6_script (OpenAPIToK6 (JDict d) k) = Inl IndexError"
    by (simp add: generate_k6_script_def server_url_text_def OpenAPIToK6_def)
  from parse show "generate (OpenAPIToK6 (JDict d) k) = Inl IndexError"
    by (simp add: generate_def)
next
  assume "map_of d ''servers'' = None"
  then show "server_url (JDict d) = Inr (JStr ''http://localhost'')"
    by (simp add: server_url_def)
next
  assume "generate (OpenAPIToK6 sp k') = Inr r"
  then obtain u where "server_url sp = Inr u"
    by (auto simp: generate_def parse_spec_def rbind_eq_Inr_iff OpenAPIToK6_def)
  then show "\<exists>d'. sp = JDict d' \<and>
      (map_of d' ''servers'' = None \<or> (\<exists>x xs. map_of d' ''servers'' = Some (JList (x # xs))))"
    by (rule server_url_Inr)
qed

theorem empty_servers_abort_witness:
  "map_of [(''servers'', JList [])] ''servers'' = Some (JList [])
   \<and> parse_spec (OpenAPIToK6 (JDict [(''servers'', JList [])]) None) = Inl IndexError
   \<and> generate_k6_script (OpenAPIToK6 (JDict [(''servers'', JList [])]) None) = Inl IndexError
   \<and> generate (OpenAPIToK6 (JDict [(''servers'', JList [])]) None) = Inl IndexError
   \<and> generate (OpenAPIToK6 (JDict [(''paths'', JDict [])]) None)
       = Inr (projr (generate (OpenAPIToK6 (JDict [(''paths'', JDict [])]) None)))
   \<and> map_of [(''paths'', JDict [])] ''servers'' = None
   \<and> server_url (JDict [(''paths'', JDict [])]) = Inr (JStr ''http://localhost'')"
proof -
  have run: "generate (OpenAPIToK6 (JDict [(''paths'', JDict [])]) None)
      = Inr (projr (generate (OpenAPIToK6 (JDict [(''paths'', JDict [])]) None)))"
    by code_simp
  have absent: "map_of [(''paths'', JDict [])] ''servers'' = None"
    by simp
  have empty: "map_of [(''servers'', JList [])] ''servers'' = Some (JList [])"
    by simp
  from empty_servers_abort [of "[(''servers'', JList [])]" None "JDict [(''paths'', JDict [])]" None
      "projr (generate (OpenAPIToK6 (JDict [(''paths'', JDict [])]) None))"]
    empty_servers_abort [of "[(''paths'', JDict [])]" None "JDict [(''paths'', JDict [])]" None
      "projr (generate (OpenAPIToK6 (JDict [(''paths'', JDict [])]) None))"]
    run absent empty
  show ?thesis by blast
qed

subsection \<open>Paths under \<^verbatim>\<open>/admin\<close>\<close>

lemma parse_methods_path:
  assumes "parse_methods base_url p ms = Inr eps" "ep \<in> set eps"
  shows "ep_path ep = p"
  using assms
proof (induction ms arbitrary: eps)
  case Nil
  then show ?case by simp
next
  case (Cons a ms)
  obtain m operation where a: "a = (m, operation)" by (cases a)
  show ?case
  proof (cases "py_lower m \<in> set http_methods")
    case True
    with Cons.prems a obtain oid eps' where rest: "parse_methods base_url p ms = Inr eps'"
      and eps: "eps = \<lparr>ep_path = p, ep_method = py_upper m, ep_operation = operation,
              ep_operation_id = oid, ep_base_url = base_url\<rparr> # eps'"
      by (auto simp: rbind_eq_Inr_iff)
    with Cons.prems(2) Cons.IH [OF rest] show ?thesis by auto
  next
    case False
    with Cons a show ?thesis by simp
  qed
qed

lemma parse_paths_no_admin:
  assumes "parse_paths base_url ps = Inr eps" "ep \<in> set eps"
  shows "\<not> str_in ''/admin'' (ep_path ep)"
  using assms
proof (induction ps arbitrary: eps)
  case Nil
  then show ?case by simp
next
  case (Cons a ps)
  obtain p item where a: "a = (p, item)" by (cases a)
  show ?case
  proof (cases "str_in ''/admin'' p")
    case True
    with Cons a show ?thesis by simp
  next
    case False
    with Cons.prems a obtain ms eps1 eps2 where ms: "parse_methods base_url p ms = Inr eps1"
      and rest: "parse_paths base_url ps = Inr eps2" and eps: "eps = eps1 @ eps2"
      by (auto simp: rbind_eq_Inr_iff)
    from Cons.prems(2) eps consider "ep \<in> set eps1" | "ep \<in> set eps2" by auto
    then show ?thesis
    proof cases
      case 1
      with ms False show ?thesis by (simp add: parse_methods_path)
    next
      case 2
      with rest show ?thesis by (rule Cons.IH)
    qed
  qed
qed

lemma parse_spec_fresh:
  "parse_spec (OpenAPIToK6 sp k) = Inr self' \<longleftrightarrow>
     (\<exists>paths base_url ps eps. py_get sp ''paths'' (JDict []) = Inr paths \<and> server_url sp = Inr base_url
        \<and> py_items paths = Inr ps \<and> parse_paths base_url ps = Inr eps
        \<and> self' = \<lparr>g_spec = sp, g_auth_key = k, g_tracked_values = [], g_endpoints = eps\<rparr>)"
  by (auto simp: parse_spec_def OpenAPIToK6_def rbind_eq_Inr_iff)

lemma endpoint_parts_headers:
  assumes "endpoint_parts n ep = Inr parts"
  shows "set (headers_code (str_nat n) (ep_path ep)) \<subseteq> set parts"
  using assms by (auto simp: endpoint_parts_def Let_def rbind_eq_Inr_iff)

lemma generate_parse:
  assumes "generate self = Inr (script, self')"
  shows "parse_spec self = Inr self'"
  using assms by (auto simp: generate_def rbind_eq_Inr_iff)

lemma endpoint_parts_headers_run:
  assumes "endpoint_parts n ep = Inr parts"
  shows "\<exists>before after. parts = before @ headers_code (str_nat n) (ep_path ep) @ after"
proof -
  from assms obtain request_body_var request_body_code tracker_code where
    "parts =
       ['''',
        ''    // '' @ py_str (ep_operation_id ep) @ '': '' @ ep_method ep @ '' '' @ ep_path ep,
        ''    const url'' @ str_nat n @ '' = baseUrl + `'' @ replace_path_parameters (ep_path ep) @ ''`;'']
       @ headers_code (str_nat n) (ep_path ep)
       @ [request_body_code, request_code (str_nat n) (ep_method ep) request_body_var,
          check_code (str_nat n), tracker_code]"
    by (auto simp: endpoint_parts_def Let_def rbind_eq_Inr_iff)
  then show ?thesis
    by blast
qed

text \<open>The header block of every endpoint stands in the script of a run from a new object.\<close>

lemma generate_headers:
  assumes "generate (OpenAPIToK6 sp k) = Inr (script, self')" "n < length (g_endpoints self')"
  shows "str_in (py_join ''\<newline>'' (headers_code (str_nat n) (ep_path (g_endpoints self' ! n)))) script"
proof -
  from generate_block [OF assms] obtain ps
    where ps: "endpoint_parts n (g_endpoints self' ! n) = Inr ps"
      and block: "str_in (py_join ''\<newline>'' ps) script"
    by blast
  from endpoint_parts_headers_run [OF ps] obtain before after
    where "ps = before @ headers_code (str_nat n) (ep_path (g_endpoints self' ! n)) @ after"
    by blast
  then have "str_in (py_join ''\<newline>'' (headers_code (str_nat n) (ep_path (g_endpoints self' ! n))))
      (py_join ''\<newline>'' ps)"
    using str_in_py_join by simp
  then show ?thesis
    using block by (rule str_in_trans)
qed

lemma generate_no_admin:
  assumes "generate (OpenAPIToK6 sp k) = Inr (script, self')" "n < length (g_endpoints self')"
  shows "\<not> str_in ''/admin'' (ep_path (g_endpoints self' ! n))"
proof -
  from generate_parse [OF assms(1)] obtain base_url ps
    where "parse_paths base_url ps = Inr (g_endpoints self')"
    unfolding parse_spec_fresh by auto
  moreover from assms(2) have "g_endpoints self' ! n \<in> set (g_endpoints self')"
    by simp
  ultimately show ?thesis
    by (rule parse_paths_no_admin)
qed

text \<open>
  The specification of the example: a path with \<^verbatim>\<open>/admin\<close> inside a segment, and another
  path; the object and the script of a run on it.
\<close>

definition admin_example :: json where
  "admin_example = JDict [(''paths'', JDict
     [(''/v1/admin-tools'', JDict [(''get'', JDict [])]),
      (''/users'', JDict [(''get'', JDict [])])])]"

definition admin_object :: generator where
  "admin_object =
     \<lparr>g_spec = admin_example, g_auth_key = None, g_tracked_values = [],
      g_endpoints = [\<lparr>ep_path = ''/users'', ep_method = ''GET'', ep_operation = JDict [],
                       ep_operation_id = JStr ''get__users'',
                       ep_base_url = JStr ''http://localhost''\<rparr>]\<rparr>"

definition admin_script :: string where
  "admin_script = fst (projr (generate (OpenAPIToK6 admin_example None)))"

text \<open>
  C5. No endpoint is extracted from a path that has \<^verbatim>\<open>/admin\<close> anywhere in it, so a script has
  no block, and no Authorization header, for such a path; the header block written for a path
  with \<^verbatim>\<open>/admin\<close> in it would be the three lines without the header. For every other path the
  header block is the four lines below: the third one adds the header
  \<^verbatim>\<open>'Authorization': `Bearer ${authKey}`\<close> when \<^verbatim>\<open>authKey\<close> is set and nothing otherwise. In
  the script that a run returns, every extracted endpoint has a path without \<^verbatim>\<open>/admin\<close>, its
  four lines stand together under the number of the endpoint, and \<^verbatim>\<open>authKey\<close> is declared
  as the value of the environment variable \<^verbatim>\<open>AUTH_KEY\<close> of the run of the script, or
  \<^verbatim>\<open>null\<close>. The example has the path \<^verbatim>\<open>/v1/admin-tools\<close>, which is excluded too.
\<close>

theorem admin_paths_excluded:
  "(parse_spec (OpenAPIToK6 sp k) = Inr self' \<longrightarrow>
      (\<forall>ep \<in> set (g_endpoints self'). \<not> str_in ''/admin'' (ep_path ep)))
   \<and> (str_in ''/admin'' path \<longrightarrow>
        headers_code i path =
          [''    const headers'' @ i @ '' = {'',
           ''        'Content-Type': 'application/json','',
           ''    };''])
   \<and> (\<not> str_in ''/admin'' path \<longrightarrow>
        headers_code i path =
          [''    const headers'' @ i @ '' = {'',
           ''        'Content-Type': 'application/json','',
           ''        ...(authKey ? { 'Authorization': `Bearer ${authKey}` } : {}),'',
           ''    };''])
   \<and> (generate (OpenAPIToK6 sp k) = Inr (script, self'') \<and> n < length (g_endpoints self'') \<longrightarrow>
        \<not> str_in ''/admin'' (ep_path (g_endpoints self'' ! n))
        \<and> str_in (py_join ''\<newline>''
             [''    const headers'' @ str_nat n @ '' = {'',
              ''        'Content-Type': 'application/json','',
              ''        ...(authKey ? { 'Authorization': `Bearer ${authKey}` } : {}),'',
              ''    };'']) script
        \<and> str_in ''    const authKey = __ENV.AUTH_KEY || null;'' script)"
proof (intro conjI impI ballI)
  fix ep
  assume "parse_spec (OpenAPIToK6 sp k) = Inr self'" "ep \<in> set (g_endpoints self')"
  then show "\<not> str_in ''/admin'' (ep_path ep)"
    by (auto simp: parse_spec_fresh dest: parse_paths_no_admin)
next
  assume "str_in ''/admin'' path"
  then show "headers_code i path =
          [''    const headers'' @ i @ '' = {'',
           ''        'Content-Type': 'application/json','',
           ''    };'']"
    by (simp add: headers_code_def)
next
  assume "\<not> str_in ''/admin'' path"
  then show "headers_code i path =
          [''    const headers'' @ i @ '' = {'',
           ''        'Content-Type': 'application/json','',
           ''        ...(authKey ? { 'Authorization': `Bearer ${authKey}` } : {}),'',
           ''    };'']"
    by (simp add: headers_code_def auth_header_line_def)
next
  assume a: "generate (OpenAPIToK6 sp k) = Inr (script, self'') \<and> n < length (g_endpoints self'')"
  then show "\<not> str_in ''/admin'' (ep_path (g_endpoints self'' ! n))"
    using generate_no_admin by blast
next
  assume a: "generate (OpenAPIToK6 sp k) = Inr (script, self'') \<and> n < length (g_endpoints self'')"
  then have run: "generate (OpenAPIToK6 sp k) = Inr (script, self'')" and n: "n < length (g_endpoints self'')"
    by simp_all
  from generate_no_admin [OF run n]
  have "headers_code (str_nat n) (ep_path (g_endpoints self'' ! n)) =
          [''    const headers'' @ str_nat n @ '' = {'',
           ''        'Content-Type': 'application/json','',
           ''        ...(authKey ? { 'Authorization': `Bearer ${authKey}` } : {}),'',
           ''    };'']"
    by (simp add: headers_code_def auth_header_line_def)
  with generate_headers [OF run n]
  show "str_in (py_join ''\<newline>''
             [''    const headers'' @ str_nat n @ '' = {'',
              ''        'Content-Type': 'application/json','',
              ''        ...(authKey ? { 'Authorization': `Bearer ${authKey}` } : {}),'',
              ''    };'']) script"
    by simp
next
  assume a: "generate (OpenAPIToK6 sp k) = Inr (script, self'') \<and> n < length (g_endpoints self'')"
  then have run: "generate (OpenAPIToK6 sp k) = Inr (script, self'')"
    by simp
  from generate_preamble [OF run] obtain url
    where "\<forall>line \<in> set (script_preamble url). str_in line script"
    by blast
  moreover have "''    const authKey = __ENV.AUTH_KEY || null;'' \<in> set (script_preamble url)"
    by (simp add: script_preamble_def)
  ultimately show "str_in ''    const authKey = __ENV.AUTH_KEY || null;'' script"
    by blast
qed

theorem admin_paths_excluded_witness:
  "parse_spec (OpenAPIToK6 admin_example None) = Inr admin_object
   \<and> map ep_path (g_endpoints admin_object) = [''/users'']
   \<and> str_in ''/admin'' ''/v1/admin-tools''
   \<and> headers_code ''0'' ''/v1/admin-tools'' =
          [''    const headers'' @ ''0'' @ '' = {'',
           ''        'Content-Type': 'application/json','',
           ''    };'']
   \<and> \<not> str_in ''/admin'' ''/users''
   \<and> headers_code ''0'' ''/users'' =
          [''    const headers'' @ ''0'' @ '' = {'',
           ''        'Content-Type': 'application/json','',
           ''        ...(authKey ? { 'Authorization': `Bearer ${authKey}` } : {}),'',
           ''    };'']
   \<and> generate (OpenAPIToK6 admin_example None) = Inr (admin_script, admin_object)
   \<and> 0 < length (g_endpoints admin_object)
   \<and> str_in (py_join ''\<newline>''
             [''    const headers'' @ str_nat 0 @ '' = {'',
              ''        'Content-Type': 'application/json','',
              ''        ...(authKey ? { 'Authorization': `Bearer ${authKey}` } : {}),'',
              ''    };'']) admin_script
   \<and> str_in ''    const authKey = __ENV.AUTH_KEY || null;'' admin_script"
proof -
  have extraction: "parse_spec (OpenAPIToK6 admin_example None) = Inr admin_object"
    by code_simp
  have run: "generate (OpenAPIToK6 admin_example None) = Inr (admin_script, admin_object)"
    by code_simp
  have held: "map ep_path (g_endpoints admin_object) = [''/users'']" "0 < length (g_endpoints admin_object)"
    by (simp_all add: admin_object_def)
  have admin: "str_in ''/admin'' ''/v1/admin-tools''" and users: "\<not> str_in ''/admin'' ''/users''"
    by code_simp+
  from admin_paths_excluded [where sp = admin_example and k = None and self' = admin_object
      and path = "''/v1/admin-tools''" and i = "''0''" and script = admin_script
      and self'' = admin_object and n = 0]
    admin_paths_excluded [where sp = admin_example and k = None and self' = admin_object
      and path = "''/users''" and i = "''0''" and script = admin_script
      and self'' = admin_object and n = 0]
    extraction run held admin users
  show ?thesis
    by blast
qed

lemma parse_spec_fresh_endpoints:
  assumes "parse_spec (OpenAPIToK6 sp k) = Inr self'"
  shows "\<exists>base_url ps. parse_paths base_url ps = Inr (g_endpoints self')"
proof -
  from assms obtain paths base_url ps eps where "parse_paths base_url ps = Inr eps"
    and "self' = \<lparr>g_spec = sp, g_auth_key = k, g_tracked_values = [], g_endpoints = eps\<rparr>"
    unfolding parse_spec_fresh by blast
  then show ?thesis by auto
qed

lemma parse_spec_ignores_key:
  assumes "parse_spec (OpenAPIToK6 sp k1) = Inr g1" "parse_spec (OpenAPIToK6 sp k2) = Inr g2"
  shows "g_endpoints g1 = g_endpoints g2"
proof -
  from assms(1) obtain paths base_url ps eps where 1: "py_get sp ''paths'' (JDict []) = Inr paths"
    "server_url sp = Inr base_url" "py_items paths = Inr ps" "parse_paths base_url ps = Inr eps"
    "g1 = \<lparr>g_spec = sp, g_auth_key = k1, g_tracked_values = [], g_endpoints = eps\<rparr>"
    unfolding parse_spec_fresh by blast
  from assms(2) obtain paths' base_url' ps' eps' where 2: "py_get sp ''paths'' (JDict []) = Inr paths'"
    "server_url sp = Inr base_url'" "py_items paths' = Inr ps'" "parse_paths base_url' ps' = Inr eps'"
    "g2 = \<lparr>g_spec = sp, g_auth_key = k2, g_tracked_values = [], g_endpoints = eps'\<rparr>"
    unfolding parse_spec_fresh by blast
  from 1 2 show ?thesis by simp
qed

subsection \<open>Derived operation identifiers\<close>

lemma replace_str_char:
  "replace_str [c] new s = concat (map (\<lambda>x. if x = c then new else [x]) s)"
  by (induction s) auto

text \<open>The path as the derived identifier has it: every slash an underscore, no braces.\<close>

definition underscored_path :: "string \<Rightarrow> string" where
  "underscored_path path =
     filter (\<lambda>c. c \<noteq> CHR ''{'' \<and> c \<noteq> CHR ''}'') (map (\<lambda>c. if c = CHR ''/'' then CHR ''_'' else c) path)"

text \<open>The path with the three characters stripped, as the claim words it.\<close>

definition stripped_path :: "string \<Rightarrow> string" where
  "stripped_path path = filter (\<lambda>c. c \<noteq> CHR ''/'' \<and> c \<noteq> CHR ''{'' \<and> c \<noteq> CHR ''}'') path"

lemma default_operation_id_eq:
  "default_operation_id m p = m @ ''_'' @ underscored_path p"
proof -
  have slash: "replace_str ''/'' ''_'' p = map (\<lambda>c. if c = CHR ''/'' then CHR ''_'' else c) p"
    unfolding replace_str_char by (induction p) simp_all
  have drop_char: "replace_str [c] '''' s = filter (\<lambda>x. x \<noteq> c) s" for c s
    unfolding replace_str_char by (induction s) simp_all
  have "filter (\<lambda>x. x \<noteq> CHR ''}'') (filter (\<lambda>x. x \<noteq> CHR ''{'') s)
      = filter (\<lambda>c. c \<noteq> CHR ''{'' \<and> c \<noteq> CHR ''}'') s" for s :: string
    by (induction s) simp_all
  with slash drop_char show ?thesis
    by (simp add: default_operation_id_def underscored_path_def)
qed

text \<open>
  The operations of a document as the specification words the extraction: the paths in their
  order, without those that have \<^verbatim>\<open>/admin\<close> in them; under each path the keys that are one
  of the seven methods in any case, in their order, each with the operation under it. A row is
  the path, the key as the document spells it, and the operation.
\<close>

definition listed_operations :: "(string \<times> json) list \<Rightarrow> (string \<times> string \<times> json) list" where
  "listed_operations ps =
     concat (map (\<lambda>(path, path_item).
         map (\<lambda>(method, operation). (path, method, operation))
           (filter (\<lambda>(method, operation). py_lower method \<in> set http_methods) (entries path_item)))
       (filter (\<lambda>(path, path_item). \<not> str_in ''/admin'' path) ps))"

definition document_operations :: "json \<Rightarrow> (string \<times> string \<times> json) list" where
  "document_operations sp = listed_operations (entries (entry sp ''paths''))"

lemma parse_methods_rows:
  assumes "parse_methods base_url path ms = Inr eps"
  shows "map (\<lambda>ep. (ep_path ep, ep_method ep, ep_operation ep, ep_operation_id ep)) eps
    = map (\<lambda>(path, method, operation).
             (path, py_upper method, operation,
              case map_of (entries operation) ''operationId'' of
                None \<Rightarrow> JStr (method @ ''_'' @ underscored_path path)
              | Some declared \<Rightarrow> declared))
        (map (\<lambda>(method, operation). (path, method, operation))
          (filter (\<lambda>(method, operation). py_lower method \<in> set http_methods) ms))"
  using assms
proof (induction ms arbitrary: eps)
  case Nil
  then show ?case by simp
next
  case (Cons a ms)
  obtain m operation where a: "a = (m, operation)" by (cases a)
  show ?case
  proof (cases "py_lower m \<in> set http_methods")
    case True
    with Cons.prems a obtain oid eps' where rest: "parse_methods base_url path ms = Inr eps'"
      and oid: "py_get operation ''operationId'' (JStr (default_operation_id m path)) = Inr oid"
      and eps: "eps = \<lparr>ep_path = path, ep_method = py_upper m, ep_operation = operation,
              ep_operation_id = oid, ep_base_url = base_url\<rparr> # eps'"
      by (auto simp: rbind_eq_Inr_iff)
    from oid obtain kvs where "operation = JDict kvs"
      "oid = (case map_of kvs ''operationId'' of
                None \<Rightarrow> JStr (default_operation_id m path) | Some w \<Rightarrow> w)"
      unfolding py_get_Inr_iff by blast
    then have "oid = (case map_of (entries operation) ''operationId'' of
                None \<Rightarrow> JStr (m @ ''_'' @ underscored_path path) | Some declared \<Rightarrow> declared)"
      by (simp add: default_operation_id_eq split: option.split)
    with True a eps Cons.IH [OF rest] show ?thesis
      by simp
  next
    case False
    with Cons a show ?thesis by simp
  qed
qed

lemma parse_paths_rows:
  assumes "parse_paths base_url ps = Inr eps"
  shows "map (\<lambda>ep. (ep_path ep, ep_method ep, ep_operation ep, ep_operation_id ep)) eps
    = map (\<lambda>(path, method, operation).
             (path, py_upper method, operation,
              case map_of (entries operation) ''operationId'' of
                None \<Rightarrow> JStr (method @ ''_'' @ underscored_path path)
              | Some declared \<Rightarrow> declared))
        (listed_operations ps)"
  using assms
proof (induction ps arbitrary: eps)
  case Nil
  then show ?case by (simp add: listed_operations_def)
next
  case (Cons a ps)
  obtain p item where a: "a = (p, item)" by (cases a)
  show ?case
  proof (cases "str_in ''/admin'' p")
    case True
    with Cons a show ?thesis by (simp add: listed_operations_def)
  next
    case False
    with Cons.prems a obtain ms eps1 eps2 where items: "py_items item = Inr ms"
      and ms: "parse_methods base_url p ms = Inr eps1"
      and rest: "parse_paths base_url ps = Inr eps2" and eps: "eps = eps1 @ eps2"
      by (auto simp: rbind_eq_Inr_iff)
    from items have item: "entries item = ms"
      by (simp add: py_items_Inr_iff)
    from False a item have "listed_operations (a # ps)
        = map (\<lambda>(method, operation). (p, method, operation))
            (filter (\<lambda>(method, operation). py_lower method \<in> set http_methods) ms)
          @ listed_operations ps"
      by (simp add: listed_operations_def)
    with eps parse_methods_rows [OF ms] Cons.IH [OF rest] show ?thesis
      by simp
  qed
qed

lemma parse_spec_rows:
  assumes "parse_spec (OpenAPIToK6 sp k) = Inr self'"
  shows "map (\<lambda>ep. (ep_path ep, ep_method ep, ep_operation ep, ep_operation_id ep)) (g_endpoints self')
    = map (\<lambda>(path, method, operation).
             (path, py_upper method, operation,
              case map_of (entries operation) ''operationId'' of
                None \<Rightarrow> JStr (method @ ''_'' @ underscored_path path)
              | Some declared \<Rightarrow> declared))
        (document_operations sp)"
proof -
  from assms obtain paths base_url ps eps where paths: "py_get sp ''paths'' (JDict []) = Inr paths"
    and items: "py_items paths = Inr ps" and eps: "parse_paths base_url ps = Inr eps"
    and self': "self' = \<lparr>g_spec = sp, g_auth_key = k, g_tracked_values = [], g_endpoints = eps\<rparr>"
    unfolding parse_spec_fresh by blast
  from paths obtain d where "sp = JDict d"
    "paths = (case map_of d ''paths'' of None \<Rightarrow> JDict [] | Some w \<Rightarrow> w)"
    unfolding py_get_Inr_iff by blast
  then have "entry sp ''paths'' = paths"
    by simp
  with items have "document_operations sp = listed_operations ps"
    by (simp add: document_operations_def py_items_Inr_iff)
  with parse_paths_rows [OF eps] self' show ?thesis
    by simp
qed

definition id_example :: json where
  "id_example = JDict [(''paths'', JDict [(''/users/{id}'', JDict [(''get'', JDict [])])])]"

text \<open>
  A document with a method spelled with a capital letter, a key that is no method, and an
  operation that declares its identifier; the object that extraction leaves.
\<close>

definition cased_example :: json where
  "cased_example = JDict [(''paths'', JDict [(''/users/{id}'', JDict
     [(''Get'', JDict []),
      (''parameters'', JList []),
      (''put'', JDict [(''operationId'', JStr ''replaceUser'')])])])]"

definition cased_object :: generator where
  "cased_object = projr (parse_spec (OpenAPIToK6 cased_example None))"

text \<open>
  C4, as the code has it. Extraction gives one endpoint for each operation of the document, in
  the order of the document: its method is the key in capital letters, and its identifier is
  the one the operation declares or, when it declares none, the key as the document spells it,
  an underscore, and the path with every slash turned into an underscore and the braces
  removed. Extraction from the same specification gives the same identifiers again, whatever
  the key.
\<close>

theorem derived_operation_id:
  "(parse_spec (OpenAPIToK6 sp k) = Inr self' \<longrightarrow>
      map (\<lambda>ep. (ep_path ep, ep_method ep, ep_operation ep, ep_operation_id ep)) (g_endpoints self')
        = map (\<lambda>(path, method, operation).
                 (path, py_upper method, operation,
                  case map_of (entries operation) ''operationId'' of
                    None \<Rightarrow> JStr (method @ ''_'' @ underscored_path path)
                  | Some declared \<Rightarrow> declared))
            (document_operations sp))
   \<and> (parse_spec (OpenAPIToK6 sp k1) = Inr g1 \<and> parse_spec (OpenAPIToK6 sp k2) = Inr g2 \<longrightarrow>
        map ep_operation_id (g_endpoints g1) = map ep_operation_id (g_endpoints g2))"
proof (intro conjI impI)
  assume "parse_spec (OpenAPIToK6 sp k) = Inr self'"
  then show "map (\<lambda>ep. (ep_path ep, ep_method ep, ep_operation ep, ep_operation_id ep)) (g_endpoints self')
        = map (\<lambda>(path, method, operation).
                 (path, py_upper method, operation,
                  case map_of (entries operation) ''operationId'' of
                    None \<Rightarrow> JStr (method @ ''_'' @ underscored_path path)
                  | Some declared \<Rightarrow> declared))
            (document_operations sp)"
    by (rule parse_spec_rows)
next
  assume "parse_spec (OpenAPIToK6 sp k1) = Inr g1 \<and> parse_spec (OpenAPIToK6 sp k2) = Inr g2"
  then have "g_endpoints g1 = g_endpoints g2"
    using parse_spec_ignores_key by blast
  then show "map ep_operation_id (g_endpoints g1) = map ep_operation_id (g_endpoints g2)"
    by simp
qed

theorem derived_operation_id_witness:
  "parse_spec (OpenAPIToK6 cased_example None) = Inr cased_object
   \<and> document_operations cased_example =
       [(''/users/{id}'', ''Get'', JDict []),
        (''/users/{id}'', ''put'', JDict [(''operationId'', JStr ''replaceUser'')])]
   \<and> map (\<lambda>ep. (ep_path ep, ep_method ep, ep_operation ep, ep_operation_id ep)) (g_endpoints cased_object)
       = map (\<lambda>(path, method, operation).
                 (path, py_upper method, operation,
                  case map_of (entries operation) ''operationId'' of
                    None \<Rightarrow> JStr (method @ ''_'' @ underscored_path path)
                  | Some declared \<Rightarrow> declared))
            (document_operations cased_example)
   \<and> map (\<lambda>ep. (ep_method ep, ep_operation_id ep)) (g_endpoints cased_object)
       = [(''GET'', JStr ''Get__users_id''), (''PUT'', JStr ''replaceUser'')]
   \<and> parse_spec (OpenAPIToK6 cased_example (Some ''key''))
       = Inr (projr (parse_spec (OpenAPIToK6 cased_example (Some ''key''))))
   \<and> map ep_operation_id (g_endpoints cased_object)
       = map ep_operation_id (g_endpoints (projr (parse_spec (OpenAPIToK6 cased_example (Some ''key'')))))"
proof -
  have run1: "parse_spec (OpenAPIToK6 cased_example None) = Inr cased_object"
    by code_simp
  have run2: "parse_spec (OpenAPIToK6 cased_example (Some ''key''))
       = Inr (projr (parse_spec (OpenAPIToK6 cased_example (Some ''key''))))"
    by code_simp
  have listed: "document_operations cased_example =
       [(''/users/{id}'', ''Get'', JDict []),
        (''/users/{id}'', ''put'', JDict [(''operationId'', JStr ''replaceUser'')])]"
    by code_simp
  have ids: "map (\<lambda>ep. (ep_method ep, ep_operation_id ep)) (g_endpoints cased_object)
       = [(''GET'', JStr ''Get__users_id''), (''PUT'', JStr ''replaceUser'')]"
    by code_simp
  from derived_operation_id [where sp = cased_example and k = None and self' = cased_object
      and ?k1.0 = None and ?g1.0 = cased_object and ?k2.0 = "Some ''key''"
      and ?g2.0 = "projr (parse_spec (OpenAPIToK6 cased_example (Some ''key'')))"]
    run1 run2 listed ids
  show ?thesis
    by blast
qed

text \<open>
  The claim as it was worded has the slashes stripped: for \<^verbatim>\<open>get\<close> on \<^verbatim>\<open>/users/{id}\<close> that
  would be \<^verbatim>\<open>get_usersid\<close>, and the code derives \<^verbatim>\<open>get__users_id\<close>.
\<close>

theorem stripped_operation_id_counterexample:
  "parse_spec (OpenAPIToK6 id_example None) =
     Inr \<lparr>g_spec = id_example, g_auth_key = None, g_tracked_values = [],
          g_endpoints = [\<lparr>ep_path = ''/users/{id}'', ep_method = ''GET'', ep_operation = JDict [],
                           ep_operation_id = JStr ''get__users_id'',
                           ep_base_url = JStr ''http://localhost''\<rparr>]\<rparr>
   \<and> ''get'' @ ''_'' @ stripped_path ''/users/{id}'' = ''get_usersid''
   \<and> JStr ''get__users_id'' \<noteq> JStr (''get'' @ ''_'' @ stripped_path ''/users/{id}'')"
  by code_simp

subsection \<open>Request bodies: the type of a property\<close>

text \<open>The values of the string branch.\<close>

definition placeholder_literal :: "string \<Rightarrow> string" where
  "placeholder_literal prop_name = [CHR 0x27] @ prop_name @ ''_value'' @ [CHR 0x27]"

definition registry_lookup :: "string \<Rightarrow> string" where
  "registry_lookup prop_name =
     ''trackedValues.'' @ prop_name @ '' || trackedValues.franchiseId || '' @ placeholder_literal prop_name"

definition string_value :: "string \<Rightarrow> string" where
  "string_value prop_name =
     (if str_in ''id'' (py_lower prop_name) \<or> str_in ''franchise'' (py_lower prop_name)
      then registry_lookup prop_name else placeholder_literal prop_name)"

definition recognised_types :: "string list" where
  "recognised_types = [''string'', ''integer'', ''number'', ''boolean'', ''array'', ''object'']"

text \<open>A property declares no default when the key is absent or its value is \<^verbatim>\<open>null\<close>.\<close>

definition no_default :: "(string \<times> json) list \<Rightarrow> bool" where
  "no_default kvs = (map_of kvs ''default'' = None \<or> map_of kvs ''default'' = Some JNull)"

lemma body_part_absent_type:
  assumes "no_default kvs" "map_of kvs ''type'' = None"
  shows "body_part prop_name (JDict kvs) = Inr [''        '' @ prop_name @ '': '' @ string_value prop_name]"
  using assms
  by (auto simp: body_part_def no_default_def string_value_def registry_lookup_def placeholder_literal_def)

lemma body_part_unrecognised_type:
  assumes "no_default kvs" "map_of kvs ''type'' = Some t" "t \<notin> JStr ` set recognised_types"
  shows "body_part prop_name (JDict kvs) = Inr []"
  using assms
  by (auto simp: body_part_def no_default_def recognised_types_def)

lemma body_parts_member:
  assumes "body_parts ps = Inr parts" "(prop_name, prop_schema) \<in> set ps"
    "body_part prop_name prop_schema = Inr [part]"
  shows "part \<in> set parts"
  using assms
proof (induction ps arbitrary: parts)
  case Nil
  then show ?case by simp
next
  case (Cons a ps)
  obtain n s where a: "a = (n, s)" by (cases a)
  from Cons.prems(1) a obtain p rest where p: "body_part n s = Inr p"
    and rest: "body_parts ps = Inr rest" and parts: "parts = p @ rest"
    by (auto simp: rbind_eq_Inr_iff)
  show ?case
  proof (cases "(prop_name, prop_schema) = (n, s)")
    case True
    with p Cons.prems(3) parts show ?thesis by simp
  next
    case False
    with Cons.prems(2) a have "(prop_name, prop_schema) \<in> set ps" by auto
    from Cons.IH [OF rest this Cons.prems(3)] parts show ?thesis by simp
  qed
qed

text \<open>
  C7, as the code has it. A property without a declared default whose \<^verbatim>\<open>type\<close> is absent takes
  the string branch: its value is a registry lookup when its name contains \<^verbatim>\<open>id\<close> or
  \<^verbatim>\<open>franchise\<close> in any case, and a placeholder formed from its name otherwise, and the value is
  part of the synthesized body. A property without a declared default whose declared type is
  none of the six recognised ones adds nothing to the body.
\<close>

theorem body_part_by_type:
  "(no_default kvs \<and> map_of kvs ''type'' = None \<longrightarrow>
      body_part prop_name (JDict kvs) = Inr [''        '' @ prop_name @ '': '' @ string_value prop_name])
   \<and> (no_default kvs \<and> map_of kvs ''type'' = None \<and> (prop_name, JDict kvs) \<in> set ps
        \<and> body_parts ps = Inr parts \<longrightarrow>
      (''        '' @ prop_name @ '': '' @ string_value prop_name) \<in> set parts)
   \<and> (no_default kvs \<and> map_of kvs ''type'' = Some t \<and> t \<notin> JStr ` set recognised_types \<longrightarrow>
      body_part prop_name (JDict kvs) = Inr [])"
proof (intro conjI impI)
  assume "no_default kvs \<and> map_of kvs ''type'' = None"
  then show "body_part prop_name (JDict kvs) = Inr [''        '' @ prop_name @ '': '' @ string_value prop_name]"
    by (simp add: body_part_absent_type)
next
  assume a: "no_default kvs \<and> map_of kvs ''type'' = None \<and> (prop_name, JDict kvs) \<in> set ps
        \<and> body_parts ps = Inr parts"
  then have "body_part prop_name (JDict kvs) = Inr [''        '' @ prop_name @ '': '' @ string_value prop_name]"
    by (simp add: body_part_absent_type)
  with a show "(''        '' @ prop_name @ '': '' @ string_value prop_name) \<in> set parts"
    using body_parts_member by blast
next
  assume "no_default kvs \<and> map_of kvs ''type'' = Some t \<and> t \<notin> JStr ` set recognised_types"
  then show "body_part prop_name (JDict kvs) = Inr []"
    by (simp add: body_part_unrecognised_type)
qed

theorem body_part_by_type_witness:
  "no_default [] \<and> map_of ([] :: (string \<times> json) list) ''type'' = None
   \<and> body_part ''franchiseName'' (JDict []) =
       Inr [''        '' @ ''franchiseName'' @ '': '' @ string_value ''franchiseName'']
   \<and> (''franchiseName'', JDict []) \<in> set [(''franchiseName'', JDict [])]
   \<and> body_parts [(''franchiseName'', JDict [])] =
       Inr [''        '' @ ''franchiseName'' @ '': '' @ string_value ''franchiseName'']
   \<and> no_default [(''type'', JStr ''null'')]
   \<and> map_of [(''type'', JStr ''null'')] ''type'' = Some (JStr ''null'')
   \<and> JStr ''null'' \<notin> JStr ` set recognised_types
   \<and> body_part ''payload'' (JDict [(''type'', JStr ''null'')]) = Inr []"
proof -
  have absent: "no_default []" "map_of ([] :: (string \<times> json) list) ''type'' = None"
    "(''franchiseName'', JDict []) \<in> set [(''franchiseName'', JDict [])]"
    by (simp_all add: no_default_def)
  have parts: "body_parts [(''franchiseName'', JDict [])] =
       Inr [''        '' @ ''franchiseName'' @ '': '' @ string_value ''franchiseName'']"
    by code_simp
  have null: "no_default [(''type'', JStr ''null'')]"
    "map_of [(''type'', JStr ''null'')] ''type'' = Some (JStr ''null'')"
    "JStr ''null'' \<notin> JStr ` set recognised_types"
    by (simp_all add: no_default_def recognised_types_def)
  from body_part_by_type [of "[]" "''franchiseName''" "[(''franchiseName'', JDict [])]"
      "[''        '' @ ''franchiseName'' @ '': '' @ string_value ''franchiseName'']"]
    body_part_by_type [of "[(''type'', JStr ''null'')]" "''payload''" _ _ "JStr ''null''"]
    absent parts null
  show ?thesis by blast
qed

text \<open>
  The claim as it was worded has every type outside the six take the string branch. A property of
  type \<^verbatim>\<open>null\<close> gets no value, and a schema with that property alone gets no body.
\<close>

theorem unrecognised_type_counterexample:
  "body_part ''payload'' (JDict [(''type'', JStr ''null'')]) = Inr []
   \<and> body_part ''payload'' (JDict [(''type'', JStr ''null'')])
       \<noteq> Inr [''        '' @ ''payload'' @ '': '' @ string_value ''payload'']
   \<and> generate_request_body
        (JDict [(''properties'', JDict [(''payload'', JDict [(''type'', JStr ''null'')])])]) ''body0''
       = Inr []"
  by code_simp

subsection \<open>The capture block of a franchise creation\<close>

lemma py_join_snoc:
  "py_join sep (xs @ [x]) = (if xs = [] then x else py_join sep xs @ sep @ x)"
  by (induction sep xs rule: py_join.induct) auto

lemma map_of_dict_set: "map_of (dict_set k v kvs) k = Some v"
  by (induction kvs) auto

lemma py_upper_POST: "py_upper ''POST'' = ''POST''"
  by code_simp

lemma operation_method_with_method:
  assumes "with_method operation ''POST'' = Inr operation'"
  shows "operation_method operation' = Inr ''POST''"
proof -
  from assms obtain kvs where "operation' = JDict (dict_set ''method'' (JStr ''POST'') kvs)"
    by (cases operation) (auto simp: with_method_def)
  then show ?thesis
    by (simp add: operation_method_def map_of_dict_set py_upper_POST)
qed

lemma generate_value_tracker_franchise:
  assumes "operation_method operation = Inr ''POST''" "str_in ''franchise'' (py_lower path)"
    "generate_value_tracker path operation res_var = Inr code"
  shows "\<exists>trackers. code = py_join ''\<newline>'' (trackers @ [franchise_tracker res_var])"
  using assms by (auto simp: generate_value_tracker_def rbind_eq_Inr_iff)

lemma endpoint_parts_last:
  assumes "endpoint_parts n ep = Inr parts"
  shows "\<exists>operation'. with_method (ep_operation ep) (ep_method ep) = Inr operation'
    \<and> generate_value_tracker (ep_path ep) operation' (''res'' @ str_nat n) = Inr (last parts)"
  using assms by (auto simp: endpoint_parts_def Let_def rbind_eq_Inr_iff)

text \<open>The specification of the end-to-end example: an admin path and a franchise creation.\<close>

definition franchise_operation :: json where
  "franchise_operation =
     JDict [(''responses'', JDict [(''201'', JDict [(''content'', JDict [(''application/json'',
       JDict [(''schema'', JDict [(''properties'', JDict [(''id'', JDict [(''type'', JStr ''string'')])])])])])])])]"

definition franchise_example :: json where
  "franchise_example = JDict [(''paths'', JDict
     [(''/admin/users'', JDict [(''get'', JDict [])]),
      (''/franchises'', JDict [(''post'', franchise_operation)])])]"

definition franchise_endpoint :: endpoint where
  "franchise_endpoint =
     \<lparr>ep_path = ''/franchises'', ep_method = ''POST'', ep_operation = franchise_operation,
      ep_operation_id = JStr ''post__franchises'', ep_base_url = JStr ''http://localhost''\<rparr>"

lemma franchise_tracker_text:
  "py_join ''\<newline>''
     ['''',
      ''        try {'',
      ''            if ('' @ res_var @ ''.status === 201 || '' @ res_var @ ''.status === 200) {'',
      ''                const body = '' @ res_var @ ''.json();'',
      ''                if (body && body.id) {'',
      ''                    trackedValues['franchiseId'] = body.id;'',
      ''                    console.log(`Tracked franchiseId: ${body.id}`);'',
      ''                } else if (body && body.franchiseId) {'',
      ''                    trackedValues['franchiseId'] = body.franchiseId;'',
      ''                    console.log(`Tracked franchiseId: ${body.franchiseId}`);'',
      ''                }'',
      ''            }'',
      ''        } catch (e) {'',
      ''            // Response might not be JSON'',
      ''        }'']
   = franchise_tracker res_var"
  unfolding franchise_tracker_def ..

lemma franchise_block_last:
  assumes "ep_method ep = ''POST''" "str_in ''franchise'' (py_lower (ep_path ep))"
    "endpoint_parts n ep = Inr parts"
  shows "last parts = franchise_tracker (''res'' @ str_nat n)
    \<or> (\<exists>before. last parts = before @ ''\<newline>'' @ franchise_tracker (''res'' @ str_nat n))"
proof -
  from endpoint_parts_last [OF assms(3)] assms(1) obtain operation'
    where op: "with_method (ep_operation ep) ''POST'' = Inr operation'"
      and code: "generate_value_tracker (ep_path ep) operation' (''res'' @ str_nat n) = Inr (last parts)"
    by auto
  from generate_value_tracker_franchise [OF operation_method_with_method [OF op] assms(2) code]
  obtain trackers
    where "last parts = py_join ''\<newline>'' (trackers @ [franchise_tracker (''res'' @ str_nat n)])"
    by blast
  then show ?thesis
    unfolding py_join_snoc by (cases "trackers = []") auto
qed

text \<open>The capture block stands in the script of a run from a new object.\<close>

lemma generate_franchise_block:
  assumes "generate (OpenAPIToK6 sp k) = Inr (script, self')" "i < length (g_endpoints self')"
    "ep_method (g_endpoints self' ! i) = ''POST''"
    "str_in ''franchise'' (py_lower (ep_path (g_endpoints self' ! i)))"
  shows "str_in (franchise_tracker (''res'' @ str_nat i)) script"
proof -
  from generate_block [OF assms(1,2)] obtain ps
    where ps: "endpoint_parts i (g_endpoints self' ! i) = Inr ps"
      and block: "str_in (py_join ''\<newline>'' ps) script"
    by blast
  from franchise_block_last [OF assms(3,4) ps]
  have "\<exists>u v. last ps = u @ franchise_tracker (''res'' @ str_nat i) @ v"
  proof
    assume "last ps = franchise_tracker (''res'' @ str_nat i)"
    then have "last ps = [] @ franchise_tracker (''res'' @ str_nat i) @ []"
      by simp
    then show ?thesis by blast
  next
    assume "\<exists>before. last ps = before @ ''\<newline>'' @ franchise_tracker (''res'' @ str_nat i)"
    then obtain before where "last ps = (before @ ''\<newline>'') @ franchise_tracker (''res'' @ str_nat i) @ []"
      by auto
    then show ?thesis by blast
  qed
  then have inside: "str_in (franchise_tracker (''res'' @ str_nat i)) (last ps)"
    unfolding str_in_iff .
  from endpoint_parts_not_Nil [OF ps] have "last ps \<in> set ps"
    by simp
  then have "str_in (last ps) (py_join ''\<newline>'' ps)"
    by (rule str_in_py_join_member)
  with inside have "str_in (franchise_tracker (''res'' @ str_nat i)) (py_join ''\<newline>'' ps)"
    by (rule str_in_trans)
  then show ?thesis
    using block by (rule str_in_trans)
qed

text \<open>The object and the script of a run on the example.\<close>

definition franchise_object :: generator where
  "franchise_object =
     \<lparr>g_spec = franchise_example, g_auth_key = None, g_tracked_values = [],
      g_endpoints = [franchise_endpoint]\<rparr>"

definition franchise_script :: string where
  "franchise_script = fst (projr (generate (OpenAPIToK6 franchise_example None)))"

text \<open>
  C2. For an endpoint with method POST whose path contains \<^verbatim>\<open>franchise\<close> in any case, whatever
  its number, the tracking text, which is the last part the endpoint adds to the script, ends
  with the capture block written out below for the response of that number: the block reads
  \<^verbatim>\<open>body.id\<close>, else \<^verbatim>\<open>body.franchiseId\<close>, and stores the value found under the key
  \<^verbatim>\<open>franchiseId\<close> of the registry. The block is either the whole tracking text or follows the
  blocks of the path parameters after a line break, and it stands in the script that a run
  returns. End to end, the specification with \<^verbatim>\<open>/admin/users\<close> (GET) and \<^verbatim>\<open>/franchises\<close>
  (POST, a 201 response with the property \<^verbatim>\<open>id\<close>) gives one endpoint, the POST, and its
  tracking text is that block.
\<close>

theorem franchise_capture_block:
  "(let block = (\<lambda>res_var. py_join ''\<newline>''
       ['''',
        ''        try {'',
        ''            if ('' @ res_var @ ''.status === 201 || '' @ res_var @ ''.status === 200) {'',
        ''                const body = '' @ res_var @ ''.json();'',
        ''                if (body && body.id) {'',
        ''                    trackedValues['franchiseId'] = body.id;'',
        ''                    console.log(`Tracked franchiseId: ${body.id}`);'',
        ''                } else if (body && body.franchiseId) {'',
        ''                    trackedValues['franchiseId'] = body.franchiseId;'',
        ''                    console.log(`Tracked franchiseId: ${body.franchiseId}`);'',
        ''                }'',
        ''            }'',
        ''        } catch (e) {'',
        ''            // Response might not be JSON'',
        ''        }''])
    in (ep_method ep = ''POST'' \<and> str_in ''franchise'' (py_lower (ep_path ep))
          \<and> endpoint_parts n ep = Inr parts \<longrightarrow>
            (last parts = block (''res'' @ str_nat n)
             \<or> (\<exists>before. last parts = before @ ''\<newline>'' @ block (''res'' @ str_nat n))))
       \<and> (generate (OpenAPIToK6 sp k) = Inr (script, self') \<and> i < length (g_endpoints self')
          \<and> ep_method (g_endpoints self' ! i) = ''POST''
          \<and> str_in ''franchise'' (py_lower (ep_path (g_endpoints self' ! i))) \<longrightarrow>
            str_in (block (''res'' @ str_nat i)) script)
       \<and> parse_spec (OpenAPIToK6 franchise_example None) =
           Inr \<lparr>g_spec = franchise_example, g_auth_key = None, g_tracked_values = [],
                g_endpoints = [franchise_endpoint]\<rparr>
       \<and> map_sum id last (endpoint_parts 0 franchise_endpoint) = Inr (block ''res0''))"
proof -
  have tracking: "ep_method ep = ''POST'' \<and> str_in ''franchise'' (py_lower (ep_path ep))
          \<and> endpoint_parts n ep = Inr parts \<longrightarrow>
            (last parts = franchise_tracker (''res'' @ str_nat n)
             \<or> (\<exists>before. last parts = before @ ''\<newline>'' @ franchise_tracker (''res'' @ str_nat n)))"
    using franchise_block_last by blast
  have in_script: "generate (OpenAPIToK6 sp k) = Inr (script, self') \<and> i < length (g_endpoints self')
          \<and> ep_method (g_endpoints self' ! i) = ''POST''
          \<and> str_in ''franchise'' (py_lower (ep_path (g_endpoints self' ! i))) \<longrightarrow>
            str_in (franchise_tracker (''res'' @ str_nat i)) script"
    using generate_franchise_block by blast
  have extraction: "parse_spec (OpenAPIToK6 franchise_example None) =
           Inr \<lparr>g_spec = franchise_example, g_auth_key = None, g_tracked_values = [],
                g_endpoints = [franchise_endpoint]\<rparr>"
    by code_simp
  have example: "map_sum id last (endpoint_parts 0 franchise_endpoint) = Inr (franchise_tracker ''res0'')"
    by code_simp
  show ?thesis
    unfolding Let_def franchise_tracker_text
    using tracking in_script extraction example by (intro conjI)
qed

theorem franchise_capture_block_witness:
  "ep_method franchise_endpoint = ''POST''
   \<and> str_in ''franchise'' (py_lower (ep_path franchise_endpoint))
   \<and> endpoint_parts 0 franchise_endpoint = Inr (projr (endpoint_parts 0 franchise_endpoint))
   \<and> last (projr (endpoint_parts 0 franchise_endpoint)) = franchise_tracker (''res'' @ str_nat 0)
   \<and> generate (OpenAPIToK6 franchise_example None) = Inr (franchise_script, franchise_object)
   \<and> 0 < length (g_endpoints franchise_object)
   \<and> g_endpoints franchise_object ! 0 = franchise_endpoint
   \<and> str_in (franchise_tracker (''res'' @ str_nat 0)) franchise_script"
proof -
  have hyps: "ep_method franchise_endpoint = ''POST''"
    "str_in ''franchise'' (py_lower (ep_path franchise_endpoint))"
    "endpoint_parts 0 franchise_endpoint = Inr (projr (endpoint_parts 0 franchise_endpoint))"
    by code_simp+
  have whole: "last (projr (endpoint_parts 0 franchise_endpoint)) = franchise_tracker (''res'' @ str_nat 0)"
    by code_simp
  have run: "generate (OpenAPIToK6 franchise_example None) = Inr (franchise_script, franchise_object)"
    by code_simp
  have held: "0 < length (g_endpoints franchise_object)"
    "g_endpoints franchise_object ! 0 = franchise_endpoint"
    by (simp_all add: franchise_object_def)
  from franchise_capture_block [unfolded Let_def franchise_tracker_text,
      where ep = franchise_endpoint and n = 0 and parts = "projr (endpoint_parts 0 franchise_endpoint)"
      and sp = franchise_example and k = None and script = franchise_script
      and self' = franchise_object and i = 0]
    hyps whole run held
  show ?thesis
    by simp
qed

subsection \<open>The response-field extractor: first match wins\<close>

text \<open>The search as the specification words it. The three rules on one schema, in their order.\<close>

definition rule_match :: "json \<Rightarrow> string \<Rightarrow> string option" where
  "rule_match schema param_name =
     (let properties = entries (entry schema ''properties'') in
      if param_name \<in> set (map fst properties) then Some (''json.'' @ param_name)
      else if ''id'' \<in> set (map fst properties) then Some ''json.id''
      else if map_of (entries schema) ''type'' = Some (JStr ''object'') then
        (case find (\<lambda>(prop_name, prop_schema). str_in ''id'' (py_lower prop_name)) properties of
           None \<Rightarrow> None
         | Some (prop_name, prop_schema) \<Rightarrow> Some (''json.'' @ prop_name))
      else None)"

text \<open>The schemas of the JSON content types of one response, in the order of declaration.\<close>

definition json_schemas :: "json \<Rightarrow> json list" where
  "json_schemas response =
     map (\<lambda>(content_type, media_type). entry media_type ''schema'')
       (filter (\<lambda>(content_type, media_type). str_in ''json'' (py_lower content_type))
          (entries (entry response ''content'')))"

fun first_match :: "'a option list \<Rightarrow> 'a option" where
  "first_match [] = None"
| "first_match (None # rest) = first_match rest"
| "first_match (Some x # rest) = Some x"

definition first_extractor :: "json \<Rightarrow> string \<Rightarrow> string option" where
  "first_extractor operation param_name =
     first_match
       (map (\<lambda>schema. rule_match schema param_name)
          (concat (map (\<lambda>status_code. json_schemas (entry (entry operation ''responses'') status_code))
             [''200'', ''201'', ''202'', ''default''])))"

text \<open>
  An operation the search can read: the responses, each response under one of the four status
  codes, its content, and the media type, schema and properties of each JSON content type are
  mappings where they are present.
\<close>

definition readable_media_type :: "json \<Rightarrow> bool" where
  "readable_media_type media_type =
     (is_mapping media_type \<and> is_mapping (entry media_type ''schema'')
      \<and> is_mapping (entry (entry media_type ''schema'') ''properties''))"

definition readable_response :: "json \<Rightarrow> bool" where
  "readable_response response =
     (is_mapping response \<and> is_mapping (entry response ''content'')
      \<and> list_all (\<lambda>(content_type, media_type).
            str_in ''json'' (py_lower content_type) \<longrightarrow> readable_media_type media_type)
          (entries (entry response ''content'')))"

definition readable_operation :: "json \<Rightarrow> bool" where
  "readable_operation operation =
     (is_mapping operation \<and> is_mapping (entry operation ''responses'')
      \<and> list_all (\<lambda>status_code. readable_response (entry (entry operation ''responses'') status_code))
          status_codes)"

lemma py_get_mapping: "is_mapping j \<Longrightarrow> py_get j k (JDict []) = Inr (entry j k)"
  by (cases j) simp_all

lemma py_items_mapping: "is_mapping j \<Longrightarrow> py_items j = Inr (entries j)"
  by (cases j) simp_all

lemma py_in_mapping: "is_mapping j \<Longrightarrow> py_in s j = Inr (s \<in> set (map fst (entries j)))"
  by (cases j) simp_all

lemma py_get_type: "is_mapping j \<Longrightarrow> py_get j ''type'' JNull = Inr (case map_of (entries j) ''type'' of None \<Rightarrow> JNull | Some v \<Rightarrow> v)"
  by (cases j) simp_all

lemma find_id_like_find:
  "find_id_like ps =
     (case find (\<lambda>(prop_name, prop_schema). str_in ''id'' (py_lower prop_name)) ps of
        None \<Rightarrow> None
      | Some (prop_name, prop_schema) \<Rightarrow> Some (''json.'' @ prop_name))"
  by (induction ps) auto

lemma schema_extractor_readable:
  assumes "readable_media_type media_type"
  shows "schema_extractor media_type param_name = Inr (rule_match (entry media_type ''schema'') param_name)"
proof -
  from assms have m: "is_mapping media_type" and s: "is_mapping (entry media_type ''schema'')"
    and p: "is_mapping (entry (entry media_type ''schema'') ''properties'')"
    by (simp_all add: readable_media_type_def)
  let ?schema = "entry media_type ''schema''"
  have ty: "(case map_of (entries ?schema) ''type'' of None \<Rightarrow> JNull | Some v \<Rightarrow> v) = JStr ''object''
      \<longleftrightarrow> map_of (entries ?schema) ''type'' = Some (JStr ''object'')"
    by (cases "map_of (entries ?schema) ''type''") simp_all
  show ?thesis
    by (simp add: schema_extractor_def rule_match_def Let_def py_get_mapping [OF m]
        py_get_mapping [OF s] py_in_mapping [OF p] py_get_type [OF s] py_items_mapping [OF p]
        ty find_id_like_find)
qed

lemma content_extractor_readable:
  assumes "list_all (\<lambda>(content_type, media_type).
      str_in ''json'' (py_lower content_type) \<longrightarrow> readable_media_type media_type) cts"
  shows "content_extractor cts param_name =
    Inr (first_match (map (\<lambda>schema. rule_match schema param_name)
      (map (\<lambda>(content_type, media_type). entry media_type ''schema'')
        (filter (\<lambda>(content_type, media_type). str_in ''json'' (py_lower content_type)) cts))))"
  using assms
proof (induction cts)
  case Nil
  then show ?case by simp
next
  case (Cons a cts)
  obtain ct mt where a: "a = (ct, mt)" by (cases a)
  from Cons.prems have rest: "list_all (\<lambda>(content_type, media_type).
      str_in ''json'' (py_lower content_type) \<longrightarrow> readable_media_type media_type) cts"
    by simp
  show ?case
  proof (cases "str_in ''json'' (py_lower ct)")
    case False
    with a Cons.IH [OF rest] show ?thesis by simp
  next
    case True
    with Cons.prems a have "readable_media_type mt" by simp
    then have one: "schema_extractor mt param_name = Inr (rule_match (entry mt ''schema'') param_name)"
      by (rule schema_extractor_readable)
    show ?thesis
    proof (cases "rule_match (entry mt ''schema'') param_name")
      case None
      with a True one Cons.IH [OF rest] show ?thesis by simp
    next
      case (Some x)
      with a True one show ?thesis by simp
    qed
  qed
qed

lemma first_match_append:
  "first_match (xs @ ys) = (case first_match xs of None \<Rightarrow> first_match ys | Some x \<Rightarrow> Some x)"
  by (induction xs rule: first_match.induct) simp_all

lemma status_extractor_readable:
  assumes "is_mapping responses"
    "list_all (\<lambda>status_code. readable_response (entry responses status_code)) codes"
  shows "status_extractor responses codes param_name =
    Inr (first_match (map (\<lambda>schema. rule_match schema param_name)
      (concat (map (\<lambda>status_code. json_schemas (entry responses status_code)) codes))))"
  using assms(2)
proof (induction codes)
  case Nil
  then show ?case by simp
next
  case (Cons code codes)
  let ?response = "entry responses code"
  from Cons.prems have r: "is_mapping ?response" and c: "is_mapping (entry ?response ''content'')"
    and cts: "list_all (\<lambda>(content_type, media_type).
        str_in ''json'' (py_lower content_type) \<longrightarrow> readable_media_type media_type)
      (entries (entry ?response ''content''))"
    and rest: "list_all (\<lambda>status_code. readable_response (entry responses status_code)) codes"
    by (simp_all add: readable_response_def)
  have here: "content_extractor (entries (entry ?response ''content'')) param_name =
      Inr (first_match (map (\<lambda>schema. rule_match schema param_name) (json_schemas ?response)))"
    unfolding json_schemas_def by (rule content_extractor_readable [OF cts])
  show ?case
  proof (cases "first_match (map (\<lambda>schema. rule_match schema param_name) (json_schemas ?response))")
    case None
    with here Cons.IH [OF rest] show ?thesis
      by (simp add: py_get_mapping [OF assms(1)] py_get_mapping [OF r] py_items_mapping [OF c]
          first_match_append)
  next
    case (Some x)
    with here show ?thesis
      by (simp add: py_get_mapping [OF assms(1)] py_get_mapping [OF r] py_items_mapping [OF c]
          first_match_append)
  qed
qed

text \<open>The operation of the example: a 201 response with the properties \<^verbatim>\<open>id\<close> and \<^verbatim>\<open>name\<close>.\<close>

definition created_operation :: json where
  "created_operation =
     JDict [(''responses'', JDict [(''201'', JDict [(''content'', JDict [(''application/json'',
       JDict [(''schema'', JDict [(''properties'', JDict
         [(''id'', JDict [(''type'', JStr ''string'')]),
          (''name'', JDict [(''type'', JStr ''string'')])])])])])])])]"

text \<open>
  C1. On an operation it can read, the extractor returns the first match of the search that
  goes through the status codes \<^verbatim>\<open>200\<close>, \<^verbatim>\<open>201\<close>, \<^verbatim>\<open>202\<close>, \<^verbatim>\<open>default\<close> in this order, through the
  JSON content types of each response in the order of declaration, and in each schema through
  the three rules: the property named as the parameter, the property \<^verbatim>\<open>id\<close>, and for a schema of
  type \<^verbatim>\<open>object\<close> the first property with \<^verbatim>\<open>id\<close> in its lower-cased name. It returns no extractor
  when nothing matches. For the 201 response with the properties \<^verbatim>\<open>id\<close> and \<^verbatim>\<open>name\<close> and the
  parameter \<^verbatim>\<open>itemId\<close> it returns \<^verbatim>\<open>json.id\<close>, by the second rule.
\<close>

theorem extractor_first_match:
  "(readable_operation operation \<longrightarrow>
      find_response_value_extractor operation param_name = Inr (first_extractor operation param_name))
   \<and> find_response_value_extractor created_operation ''itemId'' = Inr (Some ''json.id'')"
proof (intro conjI impI)
  assume "readable_operation operation"
  then have o: "is_mapping operation" and r: "is_mapping (entry operation ''responses'')"
    and codes: "list_all (\<lambda>status_code. readable_response (entry (entry operation ''responses'') status_code))
          status_codes"
    by (simp_all add: readable_operation_def)
  from status_extractor_readable [OF r codes]
  show "find_response_value_extractor operation param_name = Inr (first_extractor operation param_name)"
    by (simp add: find_response_value_extractor_def first_extractor_def py_get_mapping [OF o]
        status_codes_def)
next
  show "find_response_value_extractor created_operation ''itemId'' = Inr (Some ''json.id'')"
    by code_simp
qed

theorem extractor_first_match_witness:
  "readable_operation created_operation
   \<and> find_response_value_extractor created_operation ''itemId'' = Inr (first_extractor created_operation ''itemId'')
   \<and> first_extractor created_operation ''itemId'' = Some ''json.id''"
proof -
  have readable: "readable_operation created_operation"
    by code_simp
  have first: "first_extractor created_operation ''itemId'' = Some ''json.id''"
    by code_simp
  from extractor_first_match [of created_operation "''itemId''"] readable first
  show ?thesis by blast
qed

subsection \<open>The path resolver: every placeholder becomes a lookup\<close>














lemma replace_str_other:
  assumes "c \<noteq> CHR ''{''"
  shows "replace_str (CHR ''{'' # old) new (c # t) = c # replace_str (CHR ''{'' # old) new t"
  using assms by simp






















end
